theory Spec2Isabelle
  imports Main "HOL-Library.Multiset"
begin

section \<open>Data model\<close>

text \<open>
  The program reads three files through \<^verbatim>\<open>csv.DictReader\<close>. Reading and splitting
  the lines is outside \<^verbatim>\<open>populate.py\<close>; a file is taken here as the field names of
  its header and the cells of each of its lines. Strings are lists of characters with
  code points below 256.

  The reader yields one dictionary for each line that is not empty. It has every field
  name of the header as a key; the cell of a field is its text, or \<^verbatim>\<open>None\<close> when the
  line is too short to have one. Cells beyond the header go under the key \<^verbatim>\<open>None\<close>,
  which the program never reads, and are left out. When a name stands twice in the
  header, the later cell is the one that is kept.
\<close>

type_synonym cell = "string option"

type_synonym csv_row = "string \<rightharpoonup> cell"

definition dict_reader :: "string list \<Rightarrow> string list list \<Rightarrow> csv_row list" where
  "dict_reader fieldnames lines =
     map (\<lambda>cells.
            map_of (rev (zip fieldnames
                           (map Some cells @ replicate (length fieldnames - length cells) None))))
         (filter (\<lambda>cells. cells \<noteq> []) lines)"

text \<open>
  A row of a file whose lines are complete has text under each of its keys; such a row
  is given by the text alone. A field is absent from it exactly when the header of its
  file does not have the field. \<open>cells_of\<close> is the same row as the reader yields it.
\<close>

type_synonym row = "string \<rightharpoonup> string"

definition cells_of :: "row \<Rightarrow> csv_row" where
  "cells_of row = (\<lambda>key. map_option Some (row key))"

text \<open>
  The exceptions that a run can raise on what it is given: \<^verbatim>\<open>row[key]\<close> on an absent
  key (carrying the key); \<^verbatim>\<open>int\<close> on \<^verbatim>\<open>None\<close> (\<^verbatim>\<open>TypeError\<close>) and on text that is not
  an integer literal (\<^verbatim>\<open>ValueError\<close>, carrying the text); the binding of an integer
  that does not fit in 64 bits to a statement (\<^verbatim>\<open>OverflowError\<close>); the store's
  refusal of a \<^verbatim>\<open>NULL\<close> (\<^verbatim>\<open>IntegrityError\<close>); and the three that end the reading of a
  file. The store itself is taken to work: it has the two tables and carries out every
  statement that the schema allows.
\<close>

datatype error =
  KeyError string
  | ValueError string
  | TypeError
  | OverflowError
  | IntegrityError
  | FileNotFoundError
  | UnicodeDecodeError
  | Csv_Error

text \<open>
  A data file as a run meets it: the rows that the reader yields, and the exception
  that ends the reading when it does not come to the end of the file. \<^verbatim>\<open>open\<close> raises
  when the file cannot be opened (\<^verbatim>\<open>FileNotFoundError\<close>, for one), before any row; the
  reader raises where the text cannot be decoded (\<^verbatim>\<open>UnicodeDecodeError\<close>) or parsed
  (\<^verbatim>\<open>csv.Error\<close>), after the rows that it has yielded by then. A file that is read to
  its end is \<open>(dict_reader fieldnames lines, None)\<close>.
\<close>

type_synonym source = "csv_row list \<times> error option"

definition getitem :: "(string \<rightharpoonup> 'v) \<Rightarrow> string \<Rightarrow> error + 'v" where
  "getitem row key = (case row key of None \<Rightarrow> Inl (KeyError key) | Some v \<Rightarrow> Inr v)"

text \<open>
  The two tables that the cursor writes. A product row is \<open>(id, name)\<close>; a shipment row
  is the parameter tuple of the \<^verbatim>\<open>INSERT\<close> in \<^verbatim>\<open>insert_shipment\<close>:
  \<open>(product_id, quantity, origin, destination)\<close>. Rows are kept in insertion order.
\<close>

type_synonym shipment_row = "int \<times> int \<times> string \<times> string"

record database =
  product_tbl :: "(int \<times> string) list"
  shipment_tbl :: "shipment_row list"

text \<open>
  \<^verbatim>\<open>cursor.lastrowid\<close> after an \<^verbatim>\<open>INSERT\<close> that gives no id: the store assigns 1 in
  an empty table and otherwise one more than the largest id in the table (ids are
  unbounded integers here; the store's ceiling of 63 bits is not modelled).
\<close>

definition lastrowid :: "(int \<times> string) list \<Rightarrow> int" where
  "lastrowid tbl = (case map fst tbl of [] \<Rightarrow> 1 | i # js \<Rightarrow> fold max js i + 1)"

section \<open>Product registry\<close>

text \<open>
  \<^verbatim>\<open>get_or_create_product(cursor, product_name)\<close> on a name that is text: the
  \<^verbatim>\<open>SELECT\<close> with \<^verbatim>\<open>fetchone\<close> is the first row of that name; when there is one its
  id is returned, otherwise a row is inserted and the id assigned to it is returned.
\<close>

definition get_or_create_product :: "database \<Rightarrow> string \<Rightarrow> int \<times> database" where
  "get_or_create_product cursor product_name =
     (case find (\<lambda>r. snd r = product_name) (product_tbl cursor) of
        Some result \<Rightarrow> (fst result, cursor)
      | None \<Rightarrow>
          (let i = lastrowid (product_tbl cursor)
           in (i, cursor\<lparr>product_tbl := product_tbl cursor @ [(i, product_name)]\<rparr>)))"

text \<open>
  \<^verbatim>\<open>insert_shipment(cursor, product_id, quantity, origin, destination)\<close> on values
  that the statement can bind and the store accepts: text for the origin and the
  destination, and a quantity of at most 64 bits.
\<close>

definition insert_shipment :: "database \<Rightarrow> int \<Rightarrow> int \<Rightarrow> string \<Rightarrow> string \<Rightarrow> database" where
  "insert_shipment cursor product_id quantity origin destination =
     cursor\<lparr>shipment_tbl := shipment_tbl cursor @ [(product_id, quantity, origin, destination)]\<rparr>"

text \<open>
  Modelled from the spec: the schema of the store is not in \<^verbatim>\<open>populate.py\<close>; section 6
  of the specification declares \<open>product.name\<close>, \<open>shipment.origin\<close> and
  \<open>shipment.destination\<close> as \<^verbatim>\<open>NOT NULL\<close>, so the store refuses a \<^verbatim>\<open>None\<close> written to
  one of them with \<^verbatim>\<open>IntegrityError\<close>.
\<close>

definition not_null :: "cell \<Rightarrow> error + string" where
  "not_null v = (case v of None \<Rightarrow> Inl IntegrityError | Some s \<Rightarrow> Inr s)"

text \<open>
  The two calls on the values that a run can pass. For the name \<^verbatim>\<open>None\<close> the
  \<^verbatim>\<open>SELECT\<close> finds no row, since \<^verbatim>\<open>NULL\<close> equals nothing, and the \<^verbatim>\<open>INSERT\<close> is
  refused. The parameters of a statement are bound before it runs: a quantity outside
  64 bits raises \<^verbatim>\<open>OverflowError\<close> before the store sees the row.
\<close>

definition get_or_create_product_cell :: "database \<Rightarrow> cell \<Rightarrow> error + int \<times> database" where
  "get_or_create_product_cell cursor product_name =
     (case not_null product_name of
        Inl e \<Rightarrow> Inl e
      | Inr name \<Rightarrow> Inr (get_or_create_product cursor name))"

definition fits_int64 :: "int \<Rightarrow> bool" where
  "fits_int64 n = (- (2 ^ 63) \<le> n \<and> n < 2 ^ 63)"

definition insert_shipment_cell ::
  "database \<Rightarrow> int \<Rightarrow> int \<Rightarrow> cell \<Rightarrow> cell \<Rightarrow> error + database" where
  "insert_shipment_cell cursor product_id quantity origin destination =
     (if \<not> fits_int64 quantity then Inl OverflowError
      else
        (case not_null origin of Inl e \<Rightarrow> Inl e | Inr ow \<Rightarrow>
        (case not_null destination of Inl e \<Rightarrow> Inl e | Inr ds \<Rightarrow>
           Inr (insert_shipment cursor product_id quantity ow ds))))"

section \<open>Integer literals\<close>

text \<open>
  \<^verbatim>\<open>int(s)\<close> on a string, base 10: white space is skipped at both ends, one sign may
  follow, and the rest must be decimal digits, where a single underscore may stand
  between two digits. Anything else raises \<^verbatim>\<open>ValueError\<close>, and so does a literal of
  more than 4300 digits, the interpreter's default ceiling. White space is the
  characters 9 to 13 and 32, and, of the characters above 127, 133 and 160; the
  separators 28 to 31 are not skipped. The spaces and decimal digits of Unicode that
  \<^verbatim>\<open>int\<close> takes besides lie above 255 and are not characters of this model.
\<close>

definition is_space :: "char \<Rightarrow> bool" where
  "is_space c = ((of_char c :: nat) \<in> {9, 10, 11, 12, 13, 32, 133, 160})"

definition is_digit :: "char \<Rightarrow> bool" where
  "is_digit c = (48 \<le> (of_char c :: nat) \<and> (of_char c :: nat) \<le> 57)"

definition digit_value :: "char \<Rightarrow> int" where
  "digit_value c = int (of_char c) - 48"

definition strip :: "string \<Rightarrow> string" where
  "strip s = rev (dropWhile is_space (rev (dropWhile is_space s)))"

fun int_digits :: "int \<Rightarrow> string \<Rightarrow> int option" where
  "int_digits acc [] = Some acc"
| "int_digits acc (c # cs) =
     (if is_digit c then int_digits (10 * acc + digit_value c) cs
      else if c = CHR ''_'' then
        (case cs of
           [] \<Rightarrow> None
         | d # ds \<Rightarrow> if is_digit d then int_digits (10 * acc + digit_value d) ds else None)
      else None)"

definition int_literal :: "string \<Rightarrow> int option" where
  "int_literal s =
     (case s of
        [] \<Rightarrow> None
      | c # cs \<Rightarrow> if is_digit c then int_digits (digit_value c) cs else None)"

definition signed_literal :: "string \<Rightarrow> int option" where
  "signed_literal s =
     (case s of
        [] \<Rightarrow> None
      | c # cs \<Rightarrow>
          if c = CHR ''-'' then map_option uminus (int_literal cs)
          else if c = CHR ''+'' then int_literal cs
          else int_literal s)"


definition py_int :: "string \<Rightarrow> error + int" where
  "py_int s =
     (case signed_literal (strip s) of
        None \<Rightarrow> Inl (ValueError s)
      | Some n \<Rightarrow> if 4300 < length (filter is_digit s) then Inl (ValueError s) else Inr n)"

text \<open>\<^verbatim>\<open>int\<close> on a cell: \<^verbatim>\<open>None\<close> is no string and raises \<^verbatim>\<open>TypeError\<close>.\<close>

definition py_int_cell :: "cell \<Rightarrow> error + int" where
  "py_int_cell v = (case v of None \<Rightarrow> Inl TypeError | Some s \<Rightarrow> py_int s)"

text \<open>A cell in a formatted string: \<^verbatim>\<open>None\<close> prints as its name.\<close>

definition py_str :: "cell \<Rightarrow> string" where
  "py_str v = (case v of None \<Rightarrow> ''None'' | Some s \<Rightarrow> s)"

section \<open>The self-contained family\<close>

text \<open>
  Lines 69 to 72 of \<^verbatim>\<open>process_shipping_data_0\<close>: the four reads of the row, in the
  order of the source, which give the tuple \<open>(product_name, quantity, origin,
  destination)\<close> or raise. Only the quantity is converted; the three other cells are
  taken as they are, \<^verbatim>\<open>None\<close> included.
\<close>

type_synonym canonical_cells = "cell \<times> int \<times> cell \<times> cell"

definition normalize_row :: "csv_row \<Rightarrow> error + canonical_cells" where
  "normalize_row row =
     (case getitem row ''product'' of Inl e \<Rightarrow> Inl e | Inr product_name \<Rightarrow>
     (case getitem row ''product_quantity'' of Inl e \<Rightarrow> Inl e | Inr text \<Rightarrow>
     (case py_int_cell text of Inl e \<Rightarrow> Inl e | Inr quantity \<Rightarrow>
     (case getitem row ''origin_warehouse'' of Inl e \<Rightarrow> Inl e | Inr origin \<Rightarrow>
     (case getitem row ''destination_store'' of Inl e \<Rightarrow> Inl e | Inr destination \<Rightarrow>
        Inr (product_name, quantity, origin, destination))))))"

text \<open>
  \<^verbatim>\<open>process_shipping_data_0(cursor, filepath)\<close>: the loop over the rows that the
  reader yields, which ends at the end of the file or with the exception that ends the
  reading. The result is the cursor's view of the store when control leaves the
  function, and the exception that left it, if any. When \<^verbatim>\<open>insert_shipment\<close> raises,
  the product row that \<^verbatim>\<open>get_or_create_product\<close> may have written is in that view.
\<close>

fun process_shipping_data_0 :: "database \<Rightarrow> source \<Rightarrow> database \<times> error option" where
  "process_shipping_data_0 cursor ([], failure) = (cursor, failure)"
| "process_shipping_data_0 cursor (row # rows, failure) =
     (case normalize_row row of
        Inl e \<Rightarrow> (cursor, Some e)
      | Inr (product_name, quantity, origin, destination) \<Rightarrow>
          (case get_or_create_product_cell cursor product_name of
             Inl e \<Rightarrow> (cursor, Some e)
           | Inr (product_id, cursor1) \<Rightarrow>
               (case insert_shipment_cell cursor1 product_id quantity origin destination of
                  Inl e \<Rightarrow> (cursor1, Some e)
                | Inr cursor2 \<Rightarrow> process_shipping_data_0 cursor2 (rows, failure))))"

section \<open>The joined family on complete lines\<close>

text \<open>
  \<^verbatim>\<open>process_shipping_data_1_and_2\<close> on two files whose lines are complete, so that
  every value read is text. The counts are the numbers of rows of a file and are
  taken to fit in 64 bits, so that no statement of this section raises.
\<close>

record location =
  origin :: string
  destination :: string

type_synonym shipment_info = "string \<rightharpoonup> location"

text \<open>
  \<^verbatim>\<open>product_counts\<close> is a \<^verbatim>\<open>defaultdict\<close> of \<^verbatim>\<open>defaultdict(int)\<close>; the loops over
  \<^verbatim>\<open>.items()\<close> visit keys in the order of their first insertion, so both levels are
  association lists in that order.
\<close>

type_synonym product_counts = "(string \<times> (string \<times> int) list) list"

text \<open>Lines 86 to 94: the dictionary built from the rows of the location file.\<close>

fun load_shipment_info :: "shipment_info \<Rightarrow> row list \<Rightarrow> error + shipment_info" where
  "load_shipment_info shipment_info [] = Inr shipment_info"
| "load_shipment_info shipment_info (row # rows) =
     (case getitem row ''shipment_identifier'' of Inl e \<Rightarrow> Inl e | Inr shipment_id \<Rightarrow>
     (case getitem row ''origin_warehouse'' of Inl e \<Rightarrow> Inl e | Inr ow \<Rightarrow>
     (case getitem row ''destination_store'' of Inl e \<Rightarrow> Inl e | Inr ds \<Rightarrow>
        load_shipment_info
          (shipment_info(shipment_id \<mapsto> \<lparr>origin = ow, destination = ds\<rparr>)) rows)))"

text \<open>\<^verbatim>\<open>products[product_name] += 1\<close> on a \<^verbatim>\<open>defaultdict(int)\<close>.\<close>

fun increment :: "('k \<times> int) list \<Rightarrow> 'k \<Rightarrow> ('k \<times> int) list" where
  "increment [] product_name = [(product_name, 0 + 1)]"
| "increment ((k, v) # kvs) product_name =
     (if k = product_name then (k, v + 1) # kvs else (k, v) # increment kvs product_name)"

text \<open>\<^verbatim>\<open>product_counts[shipment_id][product_name] += 1\<close>.\<close>

fun count_unit ::
  "('s \<times> ('k \<times> int) list) list \<Rightarrow> 's \<Rightarrow> 'k \<Rightarrow> ('s \<times> ('k \<times> int) list) list" where
  "count_unit [] shipment_id product_name = [(shipment_id, increment [] product_name)]"
| "count_unit ((k, products) # rest) shipment_id product_name =
     (if k = shipment_id then (k, increment products product_name) # rest
      else (k, products) # count_unit rest shipment_id product_name)"

text \<open>Lines 98 to 105: the loop over the rows of the fact file.\<close>

fun count_products :: "product_counts \<Rightarrow> row list \<Rightarrow> error + product_counts" where
  "count_products product_counts [] = Inr product_counts"
| "count_products product_counts (row # rows) =
     (case getitem row ''shipment_identifier'' of Inl e \<Rightarrow> Inl e | Inr shipment_id \<Rightarrow>
     (case getitem row ''product'' of Inl e \<Rightarrow> Inl e | Inr product_name \<Rightarrow>
        count_products (count_unit product_counts shipment_id product_name) rows))"

text \<open>What the program prints, line by line.\<close>

datatype message =
  Processing_0
  | Processing_1_and_2
  | Warning string
  | Populated
  | Summary nat nat
  | Error_message error

text \<open>Lines 117 to 119: the inner loop over the products of one shipment.\<close>

fun insert_products :: "database \<Rightarrow> string \<Rightarrow> string \<Rightarrow> (string \<times> int) list \<Rightarrow> database" where
  "insert_products cursor ow ds [] = cursor"
| "insert_products cursor ow ds ((product_name, quantity) # rest) =
     (case get_or_create_product cursor product_name of
        (product_id, cursor1) \<Rightarrow>
          insert_products (insert_shipment cursor1 product_id quantity ow ds) ow ds rest)"

text \<open>
  Lines 108 to 119: the loop over the shipments, with the warnings it prints. A shipment
  without location prints its warning and the loop goes on with the next one.
\<close>

fun insert_records ::
  "database \<Rightarrow> shipment_info \<Rightarrow> product_counts \<Rightarrow> database \<times> message list" where
  "insert_records cursor shipment_info [] = (cursor, [])"
| "insert_records cursor shipment_info ((shipment_id, products) # rest) =
     (case shipment_info shipment_id of
        None \<Rightarrow>
          (case insert_records cursor shipment_info rest of
             (cursor1, out) \<Rightarrow> (cursor1, Warning shipment_id # out))
      | Some info \<Rightarrow>
          insert_records
            (insert_products cursor (origin info) (destination info) products)
            shipment_info rest)"

text \<open>
  \<^verbatim>\<open>process_shipping_data_1_and_2(cursor, filepath_1, filepath_2)\<close>: the location file
  is read first, then the fact file, then the records are inserted. The result is the
  cursor's view of the store, the lines printed, and the exception raised, if any.
\<close>

definition process_shipping_data_1_and_2 ::
  "database \<Rightarrow> row list \<Rightarrow> row list \<Rightarrow> database \<times> message list \<times> error option" where
  "process_shipping_data_1_and_2 cursor rows_1 rows_2 =
     (case load_shipment_info Map.empty rows_2 of
        Inl e \<Rightarrow> (cursor, [], Some e)
      | Inr shipment_info \<Rightarrow>
          (case count_products [] rows_1 of
             Inl e \<Rightarrow> (cursor, [], Some e)
           | Inr product_counts \<Rightarrow>
               (case insert_records cursor shipment_info product_counts of
                  (cursor1, out) \<Rightarrow> (cursor1, out, None))))"


section \<open>The joined family on any lines\<close>

text \<open>
  The same function on two files as a run meets them: a cell may be \<^verbatim>\<open>None\<close>, and
  the reading of a file may end with an exception. \<^verbatim>\<open>None\<close> is a key of a dictionary
  like any text. The dictionary of a location is the pair of its origin and its
  destination. The location file is read to its end before the fact file is opened,
  and the fact file is read to its end before the first insertion.
\<close>

type_synonym shipment_info_cells = "cell \<rightharpoonup> cell \<times> cell"

type_synonym product_counts_cells = "(cell \<times> (cell \<times> int) list) list"

fun load_shipment_info_cells ::
  "shipment_info_cells \<Rightarrow> csv_row list \<Rightarrow> error + shipment_info_cells" where
  "load_shipment_info_cells shipment_info [] = Inr shipment_info"
| "load_shipment_info_cells shipment_info (row # rows) =
     (case getitem row ''shipment_identifier'' of Inl e \<Rightarrow> Inl e | Inr shipment_id \<Rightarrow>
     (case getitem row ''origin_warehouse'' of Inl e \<Rightarrow> Inl e | Inr ow \<Rightarrow>
     (case getitem row ''destination_store'' of Inl e \<Rightarrow> Inl e | Inr ds \<Rightarrow>
        load_shipment_info_cells (shipment_info(shipment_id \<mapsto> (ow, ds))) rows)))"

fun count_products_cells ::
  "product_counts_cells \<Rightarrow> csv_row list \<Rightarrow> error + product_counts_cells" where
  "count_products_cells product_counts [] = Inr product_counts"
| "count_products_cells product_counts (row # rows) =
     (case getitem row ''shipment_identifier'' of Inl e \<Rightarrow> Inl e | Inr shipment_id \<Rightarrow>
     (case getitem row ''product'' of Inl e \<Rightarrow> Inl e | Inr product_name \<Rightarrow>
        count_products_cells (count_unit product_counts shipment_id product_name) rows))"

fun insert_products_cells ::
  "database \<Rightarrow> cell \<Rightarrow> cell \<Rightarrow> (cell \<times> int) list \<Rightarrow> database \<times> error option" where
  "insert_products_cells cursor ow ds [] = (cursor, None)"
| "insert_products_cells cursor ow ds ((product_name, quantity) # rest) =
     (case get_or_create_product_cell cursor product_name of
        Inl e \<Rightarrow> (cursor, Some e)
      | Inr (product_id, cursor1) \<Rightarrow>
          (case insert_shipment_cell cursor1 product_id quantity ow ds of
             Inl e \<Rightarrow> (cursor1, Some e)
           | Inr cursor2 \<Rightarrow> insert_products_cells cursor2 ow ds rest))"

fun insert_records_cells ::
  "database \<Rightarrow> shipment_info_cells \<Rightarrow> product_counts_cells \<Rightarrow>
     database \<times> message list \<times> error option" where
  "insert_records_cells cursor shipment_info [] = (cursor, [], None)"
| "insert_records_cells cursor shipment_info ((shipment_id, products) # rest) =
     (case shipment_info shipment_id of
        None \<Rightarrow>
          (case insert_records_cells cursor shipment_info rest of
             (cursor1, out, err) \<Rightarrow> (cursor1, Warning (py_str shipment_id) # out, err))
      | Some (ow, ds) \<Rightarrow>
          (case insert_products_cells cursor ow ds products of
             (cursor1, Some e) \<Rightarrow> (cursor1, [], Some e)
           | (cursor1, None) \<Rightarrow> insert_records_cells cursor1 shipment_info rest))"

definition process_shipping_data_1_and_2_cells ::
  "database \<Rightarrow> source \<Rightarrow> source \<Rightarrow> database \<times> message list \<times> error option" where
  "process_shipping_data_1_and_2_cells cursor source_1 source_2 =
     (case load_shipment_info_cells Map.empty (fst source_2) of
        Inl e \<Rightarrow> (cursor, [], Some e)
      | Inr shipment_info \<Rightarrow>
          (case snd source_2 of
             Some e \<Rightarrow> (cursor, [], Some e)
           | None \<Rightarrow>
               (case count_products_cells [] (fst source_1) of
                  Inl e \<Rightarrow> (cursor, [], Some e)
                | Inr product_counts \<Rightarrow>
                    (case snd source_1 of
                       Some e \<Rightarrow> (cursor, [], Some e)
                     | None \<Rightarrow> insert_records_cells cursor shipment_info product_counts))))"

section \<open>The run\<close>

text \<open>
  The connection: what is committed in the database file, and what the cursor sees,
  which includes the writes of the open transaction. Closing keeps what is committed.
\<close>

record connection =
  committed :: database
  pending :: database

definition connect :: "database \<Rightarrow> connection" where
  "connect file = \<lparr>committed = file, pending = file\<rparr>"

definition commit :: "connection \<Rightarrow> connection" where
  "commit conn = conn\<lparr>committed := pending conn\<rparr>"

definition rollback :: "connection \<Rightarrow> connection" where
  "rollback conn = conn\<lparr>pending := committed conn\<rparr>"

definition close :: "connection \<Rightarrow> database" where
  "close conn = committed conn"

text \<open>
  The \<^verbatim>\<open>try\<close> block of \<^verbatim>\<open>main\<close>, lines 129 to 153: the connection and the lines
  printed when control leaves the block, and the exception that left it, if any. The
  two counts of the summary are read after the commit.
\<close>

definition main_try ::
  "connection \<Rightarrow> source \<Rightarrow> source \<Rightarrow> source \<Rightarrow>
     connection \<times> message list \<times> error option" where
  "main_try conn source_0 source_1 source_2 =
     (case process_shipping_data_0 (pending conn) source_0 of
        (cursor0, Some e) \<Rightarrow> (conn\<lparr>pending := cursor0\<rparr>, [Processing_0], Some e)
      | (cursor0, None) \<Rightarrow>
          (case process_shipping_data_1_and_2_cells cursor0 source_1 source_2 of
             (cursor1, out, Some e) \<Rightarrow>
               (conn\<lparr>pending := cursor1\<rparr>, [Processing_0, Processing_1_and_2] @ out, Some e)
           | (cursor1, out, None) \<Rightarrow>
               (let conn1 = commit (conn\<lparr>pending := cursor1\<rparr>)
                in (conn1,
                    [Processing_0, Processing_1_and_2] @ out @
                    [Populated,
                     Summary (length (product_tbl (pending conn1)))
                             (length (shipment_tbl (pending conn1)))],
                    None))))"

text \<open>
  \<^verbatim>\<open>main\<close>, from the content of the database file and the three data files: the
  content of the database file after the connection is closed, the lines printed, and
  the exception that \<^verbatim>\<open>main\<close> raises, if any.
\<close>

definition main ::
  "database \<Rightarrow> source \<Rightarrow> source \<Rightarrow> source \<Rightarrow>
     database \<times> message list \<times> error option" where
  "main file source_0 source_1 source_2 =
     (case main_try (connect file) source_0 source_1 source_2 of
        (conn, out, Some e) \<Rightarrow> (close (rollback conn), out @ [Error_message e], Some e)
      | (conn, out, None) \<Rightarrow> (close conn, out, None))"

section \<open>The records that a run inserts\<close>

text \<open>A canonical tuple of text: product name, quantity, origin, destination.\<close>

type_synonym canonical = "string \<times> int \<times> string \<times> string"

text \<open>
  The calls that lines 108 to 119 make, written down instead of executed: one entry
  \<open>(shipment_id, product_name, quantity, origin, destination)\<close> for each pass through
  lines 118 and 119, in the order of the passes.
\<close>

type_synonym emission = "string \<times> string \<times> int \<times> string \<times> string"

fun emitted :: "shipment_info \<Rightarrow> product_counts \<Rightarrow> emission list" where
  "emitted shipment_info [] = []"
| "emitted shipment_info ((shipment_id, products) # rest) =
     (case shipment_info shipment_id of
        None \<Rightarrow> emitted shipment_info rest
      | Some info \<Rightarrow>
          map (\<lambda>(product_name, quantity).
                 (shipment_id, product_name, quantity, origin info, destination info)) products
          @ emitted shipment_info rest)"

definition emitted_1_and_2 :: "row list \<Rightarrow> row list \<Rightarrow> error + emission list" where
  "emitted_1_and_2 rows_1 rows_2 =
     (case load_shipment_info Map.empty rows_2 of
        Inl e \<Rightarrow> Inl e
      | Inr shipment_info \<Rightarrow>
          (case count_products [] rows_1 of
             Inl e \<Rightarrow> Inl e
           | Inr product_counts \<Rightarrow> Inr (emitted shipment_info product_counts)))"

text \<open>The shipment and the product for which a record was emitted.\<close>

definition emission_key :: "emission \<Rightarrow> string \<times> string" where
  "emission_key e = (fst e, fst (snd e))"

text \<open>Resolving the product of a canonical tuple and inserting its shipment, for a list of tuples.\<close>

fun persist :: "database \<Rightarrow> canonical list \<Rightarrow> database" where
  "persist cursor [] = cursor"
| "persist cursor ((product_name, quantity, ow, ds) # rest) =
     (case get_or_create_product cursor product_name of
        (product_id, cursor1) \<Rightarrow>
          persist (insert_shipment cursor1 product_id quantity ow ds) rest)"

text \<open>The number of fact rows that carry a given shipment identifier and product.\<close>

definition carries :: "string \<Rightarrow> string \<Rightarrow> row \<Rightarrow> bool" where
  "carries s p row = (row ''shipment_identifier'' = Some s \<and> row ''product'' = Some p)"

definition units :: "row list \<Rightarrow> string \<Rightarrow> string \<Rightarrow> int" where
  "units rows s p = int (length (filter (carries s p) rows))"

text \<open>The id under which the lookup of \<^verbatim>\<open>get_or_create_product\<close> finds a name.\<close>

definition product_id_of :: "database \<Rightarrow> string \<Rightarrow> int option" where
  "product_id_of cursor product_name =
     map_option fst (find (\<lambda>r. snd r = product_name) (product_tbl cursor))"

text \<open>
  Reading \<^verbatim>\<open>product_counts\<close>: the count stored for a shipment and a product, 0 when
  there is none; and the shape that a Python dictionary of dictionaries of counts has:
  no key twice at either level, and only counts of at least 1.
\<close>

definition count_of :: "product_counts \<Rightarrow> string \<Rightarrow> string \<Rightarrow> int" where
  "count_of product_counts s p =
     (case map_of product_counts s of
        None \<Rightarrow> 0
      | Some products \<Rightarrow> (case map_of products p of None \<Rightarrow> 0 | Some v \<Rightarrow> v))"

definition dict_ok :: "(string \<times> int) list \<Rightarrow> bool" where
  "dict_ok products = (distinct (map fst products) \<and> list_all (\<lambda>kv. 1 \<le> snd kv) products)"

definition counts_ok :: "product_counts \<Rightarrow> bool" where
  "counts_ok product_counts =
     (distinct (map fst product_counts) \<and> list_all (\<lambda>kv. dict_ok (snd kv)) product_counts)"

text \<open>
  Rows with the columns of the fact file, \<open>shipping_data_1.csv\<close>, and of the location
  file, \<open>shipping_data_2.csv\<close>, for use in examples; and the field names of the three
  files that the program reads.
\<close>

definition fact_row :: "string \<Rightarrow> string \<Rightarrow> row" where
  "fact_row s p = map_of [(''shipment_identifier'', s), (''product'', p)]"

definition location_row :: "string \<Rightarrow> string \<Rightarrow> string \<Rightarrow> row" where
  "location_row s ow ds =
     map_of [(''shipment_identifier'', s), (''origin_warehouse'', ow), (''destination_store'', ds)]"


text \<open>
  The dictionary of locations and the counts of complete lines, as the function holds
  them when it reads the same lines as the reader yields them.
\<close>

definition cells_of_info :: "shipment_info \<Rightarrow> shipment_info_cells" where
  "cells_of_info info =
     (\<lambda>key. case key of
              None \<Rightarrow> None
            | Some s \<Rightarrow> map_option (\<lambda>l. (Some (origin l), Some (destination l))) (info s))"

definition cells_of_dict :: "(string \<times> int) list \<Rightarrow> (cell \<times> int) list" where
  "cells_of_dict products = map (\<lambda>kv. (Some (fst kv), snd kv)) products"

definition cells_of_counts :: "product_counts \<Rightarrow> product_counts_cells" where
  "cells_of_counts product_counts =
     map (\<lambda>kd. (Some (fst kd), cells_of_dict (snd kd))) product_counts"

definition fields_0 :: "string list" where
  "fields_0 =
     [''origin_warehouse'', ''destination_store'', ''product'', ''on_time'',
      ''product_quantity'', ''driver_identifier'']"

definition fields_1 :: "string list" where
  "fields_1 = [''shipment_identifier'', ''product'']"

definition fields_2 :: "string list" where
  "fields_2 = [''shipment_identifier'', ''origin_warehouse'', ''destination_store'']"

section \<open>Properties of the product registry\<close>

lemma fold_max_ge: "(a::int) \<le> fold max js a"
  by (induction js arbitrary: a) (auto intro: order_trans [OF max.cobounded2])

lemma fold_max_upper: "j \<in> set js \<Longrightarrow> (j::int) \<le> fold max js a"
proof (induction js arbitrary: a)
  case Nil
  then show ?case by simp
next
  case (Cons k js)
  show ?case
  proof (cases "j = k")
    case True
    have "k \<le> max k a" by simp
    also have "\<dots> \<le> fold max js (max k a)" by (rule fold_max_ge)
    finally show ?thesis using True by simp
  next
    case False
    with Cons show ?thesis by simp
  qed
qed

lemma lastrowid_fresh: "(i, n) \<in> set tbl \<Longrightarrow> i < lastrowid tbl"
proof -
  assume a: "(i, n) \<in> set tbl"
  then obtain k js where m: "map fst tbl = k # js"
    by (cases tbl) auto
  from a have "i \<in> set (map fst tbl)" by force
  with m have "i = k \<or> i \<in> set js" by simp
  then have "i \<le> fold max js k"
    using fold_max_ge [of k js] fold_max_upper [of i js k] by auto
  with m show ?thesis by (simp add: lastrowid_def)
qed

lemma find_name_None: "find (\<lambda>r. snd r = n) tbl = None \<longleftrightarrow> n \<notin> snd ` set tbl"
  by (force simp: find_None_iff)

lemma find_name_Some:
  "find (\<lambda>r. snd r = n) tbl = Some r \<Longrightarrow> r \<in> set tbl \<and> snd r = n"
  by (auto simp: find_Some_iff)

lemma find_name_append:
  "find (\<lambda>r. snd r = n) (tbl @ [(i, n)]) =
     (case find (\<lambda>r. snd r = n) tbl of None \<Rightarrow> Some (i, n) | Some r \<Rightarrow> Some r)"
  by (induction tbl) auto

lemma get_or_create_product_present:
  "n \<in> snd ` set (product_tbl c) \<Longrightarrow>
     snd (get_or_create_product c n) = c \<and>
     (fst (get_or_create_product c n), n) \<in> set (product_tbl c)"
proof -
  assume "n \<in> snd ` set (product_tbl c)"
  then obtain r where r: "find (\<lambda>r. snd r = n) (product_tbl c) = Some r"
    using find_name_None [of n "product_tbl c"] by (cases "find (\<lambda>r. snd r = n) (product_tbl c)") auto
  from find_name_Some [OF r] have "(fst r, n) \<in> set (product_tbl c)"
    by (cases r) auto
  with r show ?thesis by (simp add: get_or_create_product_def)
qed

lemma get_or_create_product_absent:
  "n \<notin> snd ` set (product_tbl c) \<Longrightarrow>
     get_or_create_product c n =
       (lastrowid (product_tbl c),
        c\<lparr>product_tbl := product_tbl c @ [(lastrowid (product_tbl c), n)]\<rparr>)"
  using find_name_None [of n "product_tbl c"]
  by (simp add: get_or_create_product_def Let_def)

lemma get_or_create_product_again:
  "get_or_create_product (snd (get_or_create_product c n)) n = get_or_create_product c n"
proof (cases "n \<in> snd ` set (product_tbl c)")
  case True
  then show ?thesis
    using get_or_create_product_present [of n c] by (simp add: prod_eq_iff)
next
  case False
  then have f: "find (\<lambda>r. snd r = n) (product_tbl c) = None"
    by (simp add: find_name_None)
  show ?thesis
    by (simp add: get_or_create_product_absent [OF False])
       (simp add: get_or_create_product_def find_name_append f)
qed

text \<open>
  C3. Resolving a product name twice in the same run gives the same id both times and
  inserts at most one product row: the second call returns the id of the first and
  leaves the store as the first call left it. When the name is already present the call
  returns the id of a row of that name and changes nothing; when it is absent the call
  appends exactly one row, of that name, under an id that no row had, returns that id,
  and leaves the shipment table alone.
\<close>

theorem get_or_create_product_idempotent:
  "get_or_create_product c n = (i, c') \<Longrightarrow>
     get_or_create_product c' n = (i, c') \<and>
     length (product_tbl c') \<le> length (product_tbl c) + 1 \<and>
     (n \<in> snd ` set (product_tbl c) \<longrightarrow> c' = c \<and> (i, n) \<in> set (product_tbl c)) \<and>
     (n \<notin> snd ` set (product_tbl c) \<longrightarrow>
        product_tbl c' = product_tbl c @ [(i, n)] \<and>
        shipment_tbl c' = shipment_tbl c \<and>
        i \<notin> fst ` set (product_tbl c))"
proof -
  assume r: "get_or_create_product c n = (i, c')"
  have again: "get_or_create_product c' n = (i, c')"
    using get_or_create_product_again [of c n] r by simp
  show ?thesis
  proof (cases "n \<in> snd ` set (product_tbl c)")
    case True
    with get_or_create_product_present [OF True] r again show ?thesis by simp
  next
    case False
    have fresh: "lastrowid (product_tbl c) \<notin> fst ` set (product_tbl c)"
      using lastrowid_fresh [of _ _ "product_tbl c"] by force
    from get_or_create_product_absent [OF False] r
    have "i = lastrowid (product_tbl c)"
      and "c' = c\<lparr>product_tbl := product_tbl c @ [(lastrowid (product_tbl c), n)]\<rparr>"
      by simp_all
    with False fresh again show ?thesis by simp
  qed
qed

theorem get_or_create_product_idempotent_witness:
  "get_or_create_product \<lparr>product_tbl = [], shipment_tbl = []\<rparr> ''Widget'' =
     (1, \<lparr>product_tbl = [(1, ''Widget'')], shipment_tbl = []\<rparr>) \<and>
   get_or_create_product \<lparr>product_tbl = [(1, ''Widget'')], shipment_tbl = []\<rparr> ''Widget'' =
     (1, \<lparr>product_tbl = [(1, ''Widget'')], shipment_tbl = []\<rparr>) \<and>
   ''Widget'' \<in> snd ` set [(1::int, ''Widget'')] \<and>
   ''Widget'' \<notin> snd ` set ([] :: (int \<times> string) list) \<and>
   (1::int) \<notin> fst ` set ([] :: (int \<times> string) list)"
proof -
  have a: "get_or_create_product \<lparr>product_tbl = [], shipment_tbl = []\<rparr> ''Widget'' =
             (1, \<lparr>product_tbl = [(1, ''Widget'')], shipment_tbl = []\<rparr>)"
    by (simp add: get_or_create_product_def lastrowid_def)
  have b: "get_or_create_product \<lparr>product_tbl = [(1, ''Widget'')], shipment_tbl = []\<rparr> ''Widget'' =
             (1, \<lparr>product_tbl = [(1, ''Widget'')], shipment_tbl = []\<rparr>)"
    by (simp add: get_or_create_product_def)
  from get_or_create_product_idempotent [OF a] get_or_create_product_idempotent [OF b] a
  show ?thesis by simp
qed

text \<open>
  C10. No check on the name stands before the lookup: for every name, the empty string
  included, \<^verbatim>\<open>get_or_create_product\<close> returns. If a product row of that name exists,
  it returns the id of such a row and leaves the store as it was; otherwise it appends a
  row of that name, under an id that no row had, and returns that id.
\<close>

theorem get_or_create_product_any_name:
  "(n \<in> snd ` set (product_tbl c) \<longrightarrow>
      (\<exists>i. get_or_create_product c n = (i, c) \<and> (i, n) \<in> set (product_tbl c))) \<and>
   (n \<notin> snd ` set (product_tbl c) \<longrightarrow>
      (\<exists>i. get_or_create_product c n = (i, c\<lparr>product_tbl := product_tbl c @ [(i, n)]\<rparr>) \<and>
           i \<notin> fst ` set (product_tbl c)))"
proof (intro conjI impI)
  assume "n \<in> snd ` set (product_tbl c)"
  from get_or_create_product_present [OF this]
  show "\<exists>i. get_or_create_product c n = (i, c) \<and> (i, n) \<in> set (product_tbl c)"
    by (cases "get_or_create_product c n") auto
next
  assume a: "n \<notin> snd ` set (product_tbl c)"
  have "lastrowid (product_tbl c) \<notin> fst ` set (product_tbl c)"
    using lastrowid_fresh [of _ _ "product_tbl c"] by force
  with get_or_create_product_absent [OF a]
  show "\<exists>i. get_or_create_product c n = (i, c\<lparr>product_tbl := product_tbl c @ [(i, n)]\<rparr>) \<and>
            i \<notin> fst ` set (product_tbl c)"
    by blast
qed

theorem get_or_create_product_any_name_witness:
  "[] \<notin> snd ` set [(1::int, ''Widget'')] \<and>
   get_or_create_product \<lparr>product_tbl = [(1, ''Widget'')], shipment_tbl = []\<rparr> [] =
     (2, \<lparr>product_tbl = [(1, ''Widget''), (2, [])], shipment_tbl = []\<rparr>) \<and>
   [] \<in> snd ` set [(1::int, ''Widget''), (2, [])] \<and>
   get_or_create_product \<lparr>product_tbl = [(1, ''Widget''), (2, [])], shipment_tbl = []\<rparr> [] =
     (2, \<lparr>product_tbl = [(1, ''Widget''), (2, [])], shipment_tbl = []\<rparr>)"
proof -
  have a: "[] \<notin> snd ` set (product_tbl \<lparr>product_tbl = [(1, ''Widget'')], shipment_tbl = []\<rparr>)"
    by simp
  have b: "[] \<in> snd ` set (product_tbl \<lparr>product_tbl = [(1, ''Widget''), (2, [])], shipment_tbl = []\<rparr>)"
    by simp
  from get_or_create_product_any_name
         [of "[]" "\<lparr>product_tbl = [(1, ''Widget'')], shipment_tbl = []\<rparr>"] a
  obtain i where i: "get_or_create_product \<lparr>product_tbl = [(1, ''Widget'')], shipment_tbl = []\<rparr> [] =
      (i, \<lparr>product_tbl = [(1, ''Widget''), (i, [])], shipment_tbl = []\<rparr>)"
    by auto
  then have "i = 2"
    by (simp add: get_or_create_product_def lastrowid_def)
  from get_or_create_product_any_name
         [of "[]" "\<lparr>product_tbl = [(1, ''Widget''), (2, [])], shipment_tbl = []\<rparr>"] b
  obtain j where j: "get_or_create_product \<lparr>product_tbl = [(1, ''Widget''), (2, [])], shipment_tbl = []\<rparr> [] =
      (j, \<lparr>product_tbl = [(1, ''Widget''), (2, [])], shipment_tbl = []\<rparr>)"
    by auto
  then have "j = 2"
    by (simp add: get_or_create_product_def)
  from i j \<open>i = 2\<close> \<open>j = 2\<close> show ?thesis by simp
qed

section \<open>Inserting a list of canonical tuples\<close>

lemma persist_append: "persist c (xs @ ys) = persist (persist c xs) ys"
  by (induction xs arbitrary: c) (auto split: prod.splits)

lemma insert_products_persist:
  "insert_products c ow ds products = persist c (map (\<lambda>(p, q). (p, q, ow, ds)) products)"
  by (induction products arbitrary: c) (auto split: prod.splits)

lemma insert_records_persist:
  "fst (insert_records c info pc) = persist c (map snd (emitted info pc))"
proof (induction pc arbitrary: c)
  case Nil
  then show ?case by simp
next
  case (Cons a pc)
  obtain s products where a: "a = (s, products)" by (cases a)
  have m: "map (snd \<circ> (\<lambda>(p, q). (s, p, q, ow, ds))) products =
           map (\<lambda>(p, q). (p, q, ow, ds)) products" for ow ds
    by auto
  show ?case
  proof (cases "info s")
    case None
    with Cons.IH [of c] show ?thesis
      by (cases "insert_records c info pc") (simp add: a)
  next
    case (Some loc)
    with Cons.IH show ?thesis
      by (simp add: a insert_products_persist persist_append m)
  qed
qed

lemma insert_records_warnings:
  "snd (insert_records c info pc) = map Warning (filter (\<lambda>s. info s = None) (map fst pc))"
proof (induction pc arbitrary: c)
  case Nil
  then show ?case by simp
next
  case (Cons a pc)
  obtain s products where a: "a = (s, products)" by (cases a)
  show ?case
  proof (cases "info s")
    case None
    with Cons.IH [of c] show ?thesis
      by (cases "insert_records c info pc") (simp add: a)
  next
    case (Some loc)
    with Cons.IH show ?thesis
      by (simp add: a)
  qed
qed

lemma product_id_of_get_or_create:
  "get_or_create_product c p = (pid, c1) \<Longrightarrow> product_id_of c1 p = Some pid"
proof (cases "find (\<lambda>r. snd r = p) (product_tbl c)")
  case None
  assume "get_or_create_product c p = (pid, c1)"
  with None show ?thesis
    by (auto simp: get_or_create_product_def product_id_of_def Let_def find_name_append)
next
  case (Some r)
  assume "get_or_create_product c p = (pid, c1)"
  with Some show ?thesis
    by (auto simp: get_or_create_product_def product_id_of_def)
qed

lemma find_append_Some: "find P xs = Some r \<Longrightarrow> find P (xs @ ys) = Some r"
  by (induction xs) (auto split: if_splits)

lemma product_id_of_get_or_create_stable:
  "product_id_of c n = Some i \<Longrightarrow> product_id_of (snd (get_or_create_product c p)) n = Some i"
  by (cases "find (\<lambda>r. snd r = p) (product_tbl c)")
     (auto simp: get_or_create_product_def product_id_of_def Let_def find_append_Some)

lemma product_id_of_insert_shipment [simp]:
  "product_id_of (insert_shipment c pid q ow ds) n = product_id_of c n"
  by (simp add: product_id_of_def insert_shipment_def)

lemma product_id_of_persist_stable:
  "product_id_of c n = Some i \<Longrightarrow> product_id_of (persist c ts) n = Some i"
proof (induction ts arbitrary: c)
  case Nil
  then show ?case by simp
next
  case (Cons t ts)
  obtain p q ow ds where t: "t = (p, q, ow, ds)" by (cases t)
  obtain pid c1 where g: "get_or_create_product c p = (pid, c1)"
    by (cases "get_or_create_product c p")
  from product_id_of_get_or_create_stable [OF Cons.prems, of p] g
  have "product_id_of (insert_shipment c1 pid q ow ds) n = Some i" by simp
  from Cons.IH [OF this] show ?case by (simp add: t g)
qed

lemma shipment_tbl_get_or_create:
  "shipment_tbl (snd (get_or_create_product c p)) = shipment_tbl c"
  by (cases "find (\<lambda>r. snd r = p) (product_tbl c)")
     (auto simp: get_or_create_product_def Let_def)

lemma persist_shipments:
  "\<exists>new. shipment_tbl (persist c ts) = shipment_tbl c @ new \<and>
         list_all2 (\<lambda>row t. product_id_of (persist c ts) (fst t) = Some (fst row) \<and> snd row = snd t)
           new ts"
proof (induction ts arbitrary: c)
  case Nil
  then show ?case by simp
next
  case (Cons t ts)
  obtain p q ow ds where t: "t = (p, q, ow, ds)" by (cases t)
  obtain pid c1 where g: "get_or_create_product c p = (pid, c1)"
    by (cases "get_or_create_product c p")
  let ?c2 = "insert_shipment c1 pid q ow ds"
  have fin: "persist c (t # ts) = persist ?c2 ts" by (simp add: t g)
  from Cons.IH [of ?c2] obtain new
    where new: "shipment_tbl (persist ?c2 ts) = shipment_tbl ?c2 @ new"
      "list_all2 (\<lambda>row t. product_id_of (persist ?c2 ts) (fst t) = Some (fst row) \<and> snd row = snd t) new ts"
    by blast
  have "product_id_of ?c2 p = Some pid"
    using product_id_of_get_or_create [OF g] by simp
  then have pid: "product_id_of (persist ?c2 ts) p = Some pid"
    by (rule product_id_of_persist_stable)
  have s: "shipment_tbl ?c2 = shipment_tbl c @ [(pid, q, ow, ds)]"
    using shipment_tbl_get_or_create [of c p] g by (simp add: insert_shipment_def)
  have "shipment_tbl (persist c (t # ts)) = shipment_tbl c @ ((pid, q, ow, ds) # new) \<and>
        list_all2 (\<lambda>row t'. product_id_of (persist c (t # ts)) (fst t') = Some (fst row) \<and> snd row = snd t')
          ((pid, q, ow, ds) # new) (t # ts)"
    using new pid s by (simp add: fin) (simp add: t)
  then show ?case by blast
qed

section \<open>The counts of the joined family\<close>

lemma map_of_increment:
  "map_of (increment d p) =
     (map_of d)(p \<mapsto> (case map_of d p of None \<Rightarrow> 1 | Some v \<Rightarrow> v + 1))"
  by (induction d) (auto simp: fun_eq_iff)

lemma keys_increment: "set (map fst (increment d p)) = insert p (set (map fst d))"
proof (induction d)
  case Nil
  then show ?case by simp
next
  case (Cons kv d)
  then show ?case by (cases kv) (simp add: insert_commute)
qed

lemma dict_ok_increment: "dict_ok d \<Longrightarrow> dict_ok (increment d p)"
proof (induction d)
  case Nil
  then show ?case by (simp add: dict_ok_def)
next
  case (Cons kv d)
  obtain k v where kv: "kv = (k, v)" by (cases kv)
  from Cons.prems have d: "dict_ok d" and k: "k \<notin> set (map fst d)" and v: "1 \<le> v"
    by (simp_all add: dict_ok_def kv)
  from Cons.IH [OF d] have i: "dict_ok (increment d p)" .
  show ?case
  proof (cases "k = p")
    case True
    with Cons.prems v show ?thesis by (simp add: dict_ok_def kv)
  next
    case False
    with i k v keys_increment [of d p] show ?thesis
      by (simp add: dict_ok_def kv)
  qed
qed

lemma map_of_count_unit:
  "map_of (count_unit pc s p) =
     (map_of pc)(s \<mapsto> increment (case map_of pc s of None \<Rightarrow> [] | Some d \<Rightarrow> d) p)"
  by (induction pc) (auto simp: fun_eq_iff)

lemma keys_count_unit: "set (map fst (count_unit pc s p)) = insert s (set (map fst pc))"
proof (induction pc)
  case Nil
  then show ?case by simp
next
  case (Cons kd pc)
  then show ?case by (cases kd) (simp add: insert_commute)
qed

lemma counts_ok_count_unit: "counts_ok pc \<Longrightarrow> counts_ok (count_unit pc s p)"
proof (induction pc)
  case Nil
  have "dict_ok (increment [] p)" by (rule dict_ok_increment) (simp add: dict_ok_def)
  then show ?case by (simp add: counts_ok_def)
next
  case (Cons kd pc)
  obtain k d where kd: "kd = (k, d)" by (cases kd)
  from Cons.prems have pc: "counts_ok pc" and k: "k \<notin> set (map fst pc)" and d: "dict_ok d"
    by (simp_all add: counts_ok_def kd)
  from Cons.IH [OF pc] have i: "counts_ok (count_unit pc s p)" .
  show ?case
  proof (cases "k = s")
    case True
    with Cons.prems dict_ok_increment [OF d, of p] show ?thesis
      by (simp add: counts_ok_def kd)
  next
    case False
    with i k d keys_count_unit [of pc s p] show ?thesis
      by (simp add: counts_ok_def kd)
  qed
qed

lemma count_of_count_unit:
  "count_of (count_unit pc s p) s' p' =
     count_of pc s' p' + (if s' = s \<and> p' = p then 1 else 0)"
  by (auto simp: count_of_def map_of_count_unit map_of_increment split: option.splits)

lemma count_products_Inr:
  "count_products pc rows = Inr pc' \<Longrightarrow>
     (\<forall>row \<in> set rows. row ''shipment_identifier'' \<noteq> None \<and> row ''product'' \<noteq> None) \<and>
     (counts_ok pc \<longrightarrow> counts_ok pc') \<and>
     (\<forall>s p. count_of pc' s p = count_of pc s p + units rows s p)"
proof (induction rows arbitrary: pc)
  case Nil
  then show ?case by (simp add: units_def)
next
  case (Cons row rows)
  from Cons.prems obtain s where s: "row ''shipment_identifier'' = Some s"
    by (cases "row ''shipment_identifier''") (auto simp: getitem_def)
  from Cons.prems s obtain p where p: "row ''product'' = Some p"
    by (cases "row ''product''") (auto simp: getitem_def)
  from Cons.prems s p have "count_products (count_unit pc s p) rows = Inr pc'"
    by (simp add: getitem_def)
  from Cons.IH [OF this]
  have wf: "\<forall>row \<in> set rows. row ''shipment_identifier'' \<noteq> None \<and> row ''product'' \<noteq> None"
    and ok: "counts_ok (count_unit pc s p) \<longrightarrow> counts_ok pc'"
    and cnt: "\<And>s' p'. count_of pc' s' p' = count_of (count_unit pc s p) s' p' + units rows s' p'"
    by auto
  have u: "units (row # rows) s' p' = (if s' = s \<and> p' = p then 1 else 0) + units rows s' p'" for s' p'
    using s p by (auto simp: units_def carries_def)
  show ?case
    using wf ok cnt s p counts_ok_count_unit [of pc s p]
    by (simp add: count_of_count_unit u)
qed

lemma count_products_succeeds:
  "\<forall>row \<in> set rows. row ''shipment_identifier'' \<noteq> None \<and> row ''product'' \<noteq> None \<Longrightarrow>
     \<exists>pc'. count_products pc rows = Inr pc'"
  by (induction rows arbitrary: pc) (auto simp: getitem_def)

lemma count_products_KeyError:
  "count_products pc rows = Inl e \<Longrightarrow>
     e = KeyError ''shipment_identifier'' \<or> e = KeyError ''product''"
  by (induction rows arbitrary: pc) (auto simp: getitem_def split: option.splits)

lemma count_of_empty [simp]: "count_of [] s p = 0"
  by (simp add: count_of_def)

lemma counts_ok_empty [simp]: "counts_ok []"
  by (simp add: counts_ok_def)

lemma units_mset: "mset rows' = mset rows \<Longrightarrow> units rows' s p = units rows s p"
proof -
  assume "mset rows' = mset rows"
  then have "mset (filter (carries s p) rows') = mset (filter (carries s p) rows)"
    by simp
  then have "length (filter (carries s p) rows') = length (filter (carries s p) rows)"
    by (rule mset_eq_length)
  then show ?thesis by (simp add: units_def)
qed

section \<open>The location dictionary\<close>

lemma load_shipment_info_append:
  "load_shipment_info m (xs @ ys) =
     (case load_shipment_info m xs of Inl e \<Rightarrow> Inl e | Inr m' \<Rightarrow> load_shipment_info m' ys)"
  by (induction xs arbitrary: m) (auto simp: getitem_def split: option.splits)

lemma load_shipment_info_Inr:
  "load_shipment_info m rows = Inr info \<Longrightarrow>
     \<forall>row \<in> set rows. row ''shipment_identifier'' \<noteq> None \<and>
       row ''origin_warehouse'' \<noteq> None \<and> row ''destination_store'' \<noteq> None"
  by (induction rows arbitrary: m) (auto simp: getitem_def split: option.splits)

lemma load_shipment_info_succeeds:
  "\<forall>row \<in> set rows. row ''shipment_identifier'' \<noteq> None \<and>
       row ''origin_warehouse'' \<noteq> None \<and> row ''destination_store'' \<noteq> None \<Longrightarrow>
     \<exists>info. load_shipment_info m rows = Inr info"
  by (induction rows arbitrary: m) (auto simp: getitem_def)

lemma load_shipment_info_KeyError:
  "load_shipment_info m rows = Inl e \<Longrightarrow>
     e = KeyError ''shipment_identifier'' \<or> e = KeyError ''origin_warehouse'' \<or>
     e = KeyError ''destination_store''"
  by (induction rows arbitrary: m) (auto simp: getitem_def split: option.splits)

lemma load_shipment_info_other:
  "load_shipment_info m rows = Inr info \<Longrightarrow>
     \<forall>row \<in> set rows. row ''shipment_identifier'' \<noteq> Some s \<Longrightarrow> info s = m s"
proof (induction rows arbitrary: m)
  case Nil
  then show ?case by simp
next
  case (Cons row rows)
  from load_shipment_info_Inr [OF Cons.prems(1)]
  obtain k ow ds where f: "row ''shipment_identifier'' = Some k"
    "row ''origin_warehouse'' = Some ow" "row ''destination_store'' = Some ds"
    by auto
  from Cons.prems(2) f have ks: "k \<noteq> s" by auto
  from Cons.prems(1) f
  have "load_shipment_info (m(k \<mapsto> \<lparr>origin = ow, destination = ds\<rparr>)) rows = Inr info"
    by (simp add: getitem_def)
  from Cons.IH [OF this] Cons.prems(2) ks show ?case by simp
qed

lemma load_shipment_info_last:
  assumes "load_shipment_info m (xs @ r # ys) = Inr info"
    and "r ''shipment_identifier'' = Some s"
    and "\<forall>row \<in> set ys. row ''shipment_identifier'' \<noteq> Some s"
  shows "\<exists>ow ds. r ''origin_warehouse'' = Some ow \<and> r ''destination_store'' = Some ds \<and>
           info s = Some \<lparr>origin = ow, destination = ds\<rparr>"
proof -
  from load_shipment_info_Inr [OF assms(1)]
  obtain ow ds where f: "r ''origin_warehouse'' = Some ow" "r ''destination_store'' = Some ds"
    by auto
  from assms(1) obtain m1 where m1: "load_shipment_info m xs = Inr m1"
    and rest: "load_shipment_info m1 (r # ys) = Inr info"
    by (auto simp: load_shipment_info_append split: sum.splits)
  from rest f assms(2)
  have "load_shipment_info (m1(s \<mapsto> \<lparr>origin = ow, destination = ds\<rparr>)) ys = Inr info"
    by (simp add: getitem_def)
  from load_shipment_info_other [OF this assms(3)] f show ?thesis by simp
qed

lemma load_shipment_info_dom:
  "load_shipment_info m rows = Inr info \<Longrightarrow>
     info s \<noteq> None \<longleftrightarrow> m s \<noteq> None \<or> (\<exists>row \<in> set rows. row ''shipment_identifier'' = Some s)"
proof (induction rows arbitrary: m)
  case Nil
  then show ?case by simp
next
  case (Cons row rows)
  from load_shipment_info_Inr [OF Cons.prems(1)]
  obtain k ow ds where f: "row ''shipment_identifier'' = Some k"
    "row ''origin_warehouse'' = Some ow" "row ''destination_store'' = Some ds"
    by auto
  from Cons.prems(1) f
  have "load_shipment_info (m(k \<mapsto> \<lparr>origin = ow, destination = ds\<rparr>)) rows = Inr info"
    by (simp add: getitem_def)
  from Cons.IH [OF this] f show ?case by auto
qed

section \<open>The emitted records\<close>

lemma emitted_mem:
  "(s, p, q, ow, ds) \<in> set (emitted info pc) \<longleftrightarrow>
     (\<exists>d. (s, d) \<in> set pc \<and> (p, q) \<in> set d \<and> info s = Some \<lparr>origin = ow, destination = ds\<rparr>)"
proof (induction pc)
  case Nil
  then show ?case by simp
next
  case (Cons kd pc)
  obtain k d where kd: "kd = (k, d)" by (cases kd)
  show ?case
  proof (cases "info k")
    case None
    with Cons.IH show ?thesis by (auto simp: kd)
  next
    case (Some loc)
    have loc: "loc = \<lparr>origin = ow, destination = ds\<rparr> \<longleftrightarrow> origin loc = ow \<and> destination loc = ds"
      by (cases loc) simp
    from Some Cons.IH loc show ?thesis by (auto simp: kd)
  qed
qed

lemma emitted_shipments: "fst ` set (emitted info pc) \<subseteq> set (map fst pc)"
proof
  fix s assume "s \<in> fst ` set (emitted info pc)"
  then obtain p q ow ds where "(s, p, q, ow, ds) \<in> set (emitted info pc)"
    by force
  then show "s \<in> set (map fst pc)"
    by (force simp: emitted_mem)
qed

lemma emitted_distinct:
  "counts_ok pc \<Longrightarrow> distinct (map emission_key (emitted info pc))"
proof (induction pc)
  case Nil
  then show ?case by simp
next
  case (Cons kd pc)
  obtain k d where kd: "kd = (k, d)" by (cases kd)
  from Cons.prems have pc: "counts_ok pc" and k: "k \<notin> set (map fst pc)"
    and d: "distinct (map fst d)"
    by (simp_all add: counts_ok_def dict_ok_def kd)
  from Cons.IH [OF pc] have ih: "distinct (map emission_key (emitted info pc))" .
  show ?case
  proof (cases "info k")
    case None
    with ih show ?thesis by (simp add: kd)
  next
    case (Some loc)
    have m: "map (emission_key \<circ> (\<lambda>(p, q). (k, p, q, origin loc, destination loc))) d =
             map (\<lambda>p. (k, p)) (map fst d)"
      by (auto simp: emission_key_def)
    have d1: "distinct (map (\<lambda>p. (k, p)) (map fst d))"
      using d by (simp add: distinct_map inj_on_def)
    have disj: "set (map (\<lambda>p. (k, p)) (map fst d)) \<inter> set (map emission_key (emitted info pc)) = {}"
    proof -
      have "fst (emission_key e) \<in> set (map fst pc)" if "e \<in> set (emitted info pc)" for e
        using emitted_shipments [of info pc] that by (force simp: emission_key_def)
      have "False" if x1: "x \<in> set (map (\<lambda>p. (k, p)) (map fst d))"
        and x2: "x \<in> set (map emission_key (emitted info pc))" for x
      proof -
        from x1 have "fst x = k" by auto
        moreover from x2 obtain e where "e \<in> set (emitted info pc)" "x = emission_key e"
          by auto
        ultimately have "k \<in> set (map fst pc)"
          using \<open>\<And>e. e \<in> set (emitted info pc) \<Longrightarrow> fst (emission_key e) \<in> set (map fst pc)\<close>
          by metis
        with k show False by simp
      qed
      then show ?thesis by blast
    qed
    from Some ih d1 disj show ?thesis by (simp add: kd m)
  qed
qed

lemma filter_key_single:
  "distinct (map f xs) \<Longrightarrow> x \<in> set xs \<Longrightarrow> filter (\<lambda>y. f y = f x) xs = [x]"
proof (induction xs)
  case Nil
  then show ?case by simp
next
  case (Cons a xs)
  show ?case
  proof (cases "a = x")
    case True
    from Cons.prems(1) have "f a \<notin> f ` set xs" by simp
    then have "\<forall>y \<in> set xs. f y \<noteq> f a" by (metis imageI)
    then have "filter (\<lambda>y. f y = f a) xs = []" by (simp add: filter_empty_conv)
    with True show ?thesis by simp
  next
    case False
    with Cons.prems have x: "x \<in> set xs" by simp
    with Cons.prems(1) have "f a \<noteq> f x" by (metis distinct.simps(2) imageI list.simps(9) set_map)
    with Cons.IH x Cons.prems(1) show ?thesis by simp
  qed
qed

lemma emitted_count_of:
  assumes "counts_ok pc"
  shows "(s, p, q, ow, ds) \<in> set (emitted info pc) \<longleftrightarrow>
           info s = Some \<lparr>origin = ow, destination = ds\<rparr> \<and> q = count_of pc s p \<and> 1 \<le> q"
proof -
  from assms have dist: "distinct (map fst pc)" by (simp add: counts_ok_def)
  have inner: "dict_ok d" if "(s, d) \<in> set pc" for d
    using assms that by (auto simp: counts_ok_def list_all_iff)
  have "(\<exists>d. (s, d) \<in> set pc \<and> (p, q) \<in> set d) \<longleftrightarrow> q = count_of pc s p \<and> 1 \<le> q"
  proof
    assume "\<exists>d. (s, d) \<in> set pc \<and> (p, q) \<in> set d"
    then obtain d where sd: "(s, d) \<in> set pc" and pq: "(p, q) \<in> set d" by blast
    from inner [OF sd] have dd: "distinct (map fst d)" and pos: "\<forall>kv \<in> set d. 1 \<le> snd kv"
      by (simp_all add: dict_ok_def list_all_iff)
    from sd dist have "map_of pc s = Some d" by simp
    moreover from pq dd have "map_of d p = Some q" by simp
    ultimately have "count_of pc s p = q" by (simp add: count_of_def)
    with pos pq show "q = count_of pc s p \<and> 1 \<le> q" by force
  next
    assume a: "q = count_of pc s p \<and> 1 \<le> q"
    then obtain d where d: "map_of pc s = Some d"
      by (cases "map_of pc s") (auto simp: count_of_def)
    with a obtain v where v: "map_of d p = Some v"
      by (cases "map_of d p") (auto simp: count_of_def)
    from a d v have "v = q" by (simp add: count_of_def)
    with d v show "\<exists>d. (s, d) \<in> set pc \<and> (p, q) \<in> set d"
      by (blast dest: map_of_SomeD)
  qed
  then show ?thesis by (auto simp: emitted_mem)
qed

section \<open>Properties of the joined family\<close>

lemma count_products_keys:
  "count_products pc rows = Inr pc' \<Longrightarrow>
     set (map fst pc') =
       set (map fst pc) \<union> {s. \<exists>row \<in> set rows. row ''shipment_identifier'' = Some s}"
proof (induction rows arbitrary: pc)
  case Nil
  then show ?case by simp
next
  case (Cons row rows)
  from count_products_Inr [OF Cons.prems]
  obtain s p where f: "row ''shipment_identifier'' = Some s" "row ''product'' = Some p"
    by auto
  from Cons.prems f have "count_products (count_unit pc s p) rows = Inr pc'"
    by (simp add: getitem_def)
  from Cons.IH [OF this]
  have "set (map fst pc') =
          insert s (set (map fst pc)) \<union> {s. \<exists>row \<in> set rows. row ''shipment_identifier'' = Some s}"
    by (simp only: keys_count_unit)
  also have "\<dots> = set (map fst pc) \<union>
                {s. \<exists>row \<in> set (row # rows). row ''shipment_identifier'' = Some s}"
    using f by auto
  finally show ?case .
qed

lemma list_all2_eq_map: "list_all2 (\<lambda>x y. f x = g y) xs ys \<longleftrightarrow> map f xs = map g ys"
  by (induction xs ys rule: list_induct2') auto

lemma units_positive: "1 \<le> units rows s p \<longleftrightarrow> (\<exists>row \<in> set rows. carries s p row)"
proof -
  have "1 \<le> units rows s p \<longleftrightarrow> filter (carries s p) rows \<noteq> []"
    by (cases "filter (carries s p) rows") (simp_all add: units_def)
  then show ?thesis by (simp add: filter_empty_conv)
qed

lemma emitted_1_and_2_Inr:
  assumes "emitted_1_and_2 rows_1 rows_2 = Inr ts"
  shows "\<exists>info pc. load_shipment_info Map.empty rows_2 = Inr info \<and>
           count_products [] rows_1 = Inr pc \<and> ts = emitted info pc \<and> counts_ok pc \<and>
           (\<forall>s p. count_of pc s p = units rows_1 s p)"
proof -
  from assms obtain info where info: "load_shipment_info Map.empty rows_2 = Inr info"
    by (cases "load_shipment_info Map.empty rows_2") (simp_all add: emitted_1_and_2_def)
  from assms info obtain pc where pc: "count_products [] rows_1 = Inr pc"
    by (cases "count_products [] rows_1") (simp_all add: emitted_1_and_2_def)
  from assms info pc have ts: "ts = emitted info pc"
    by (simp add: emitted_1_and_2_def)
  from count_products_Inr [OF pc] have "counts_ok pc"
    and "\<forall>s p. count_of pc s p = units rows_1 s p"
    by simp_all
  with info pc ts show ?thesis by blast
qed

lemma emitted_units:
  assumes "emitted_1_and_2 rows_1 rows_2 = Inr ts"
    and "load_shipment_info Map.empty rows_2 = Inr info"
  shows "(s, p, q, ow, ds) \<in> set ts \<longleftrightarrow>
           info s = Some \<lparr>origin = ow, destination = ds\<rparr> \<and> q = units rows_1 s p \<and>
           (\<exists>row \<in> set rows_1. carries s p row)"
proof -
  from emitted_1_and_2_Inr [OF assms(1)] obtain info' pc where i: "load_shipment_info Map.empty rows_2 = Inr info'"
    and pc: "count_products [] rows_1 = Inr pc"
    and ts: "ts = emitted info' pc" and ok: "counts_ok pc"
    and cnt: "\<forall>s p. count_of pc s p = units rows_1 s p"
    by blast
  from i assms(2) have "info' = info" by simp
  with emitted_count_of [OF ok, of s p q ow ds info] ts cnt units_positive [of rows_1 s p]
  show ?thesis by auto
qed

lemma process_shipping_data_1_and_2_emitted:
  assumes "load_shipment_info Map.empty rows_2 = Inr info"
    and "count_products [] rows_1 = Inr pc"
  shows "process_shipping_data_1_and_2 c rows_1 rows_2 =
           (persist c (map snd (emitted info pc)),
            map Warning (filter (\<lambda>s. info s = None) (map fst pc)), None)"
proof -
  obtain c1 out where r: "insert_records c info pc = (c1, out)"
    by (cases "insert_records c info pc")
  from insert_records_persist [of c info pc] insert_records_warnings [of c info pc] r
  have "c1 = persist c (map snd (emitted info pc))"
    "out = map Warning (filter (\<lambda>s. info s = None) (map fst pc))"
    by simp_all
  with assms r show ?thesis by (simp add: process_shipping_data_1_and_2_def)
qed

lemma emitted_permuted:
  assumes "emitted_1_and_2 rows_1 rows_2 = Inr ts" and "mset rows_1' = mset rows_1"
  shows "\<exists>ts'. emitted_1_and_2 rows_1' rows_2 = Inr ts' \<and> mset ts' = mset ts"
proof -
  from emitted_1_and_2_Inr [OF assms(1)] obtain info pc where info: "load_shipment_info Map.empty rows_2 = Inr info"
    and pc: "count_products [] rows_1 = Inr pc" and ts: "ts = emitted info pc"
    and ok: "counts_ok pc" and cnt: "\<forall>s p. count_of pc s p = units rows_1 s p"
    by blast
  from count_products_Inr [OF pc]
  have "\<forall>row \<in> set rows_1. row ''shipment_identifier'' \<noteq> None \<and> row ''product'' \<noteq> None"
    by simp
  moreover from assms(2) have "set rows_1' = set rows_1" by (rule mset_eq_setD)
  ultimately obtain pc' where pc': "count_products [] rows_1' = Inr pc'"
    using count_products_succeeds [of rows_1' "[]"] by auto
  let ?ts' = "emitted info pc'"
  have e': "emitted_1_and_2 rows_1' rows_2 = Inr ?ts'"
    using info pc' by (simp add: emitted_1_and_2_def)
  from count_products_Inr [OF pc'] have ok': "counts_ok pc'" by simp
  have "e \<in> set ?ts' \<longleftrightarrow> e \<in> set ts" for e
  proof -
    obtain s p q ow ds where e: "e = (s, p, q, ow, ds)" by (cases e)
    have "units rows_1' s p = units rows_1 s p"
      using assms(2) by (rule units_mset)
    moreover have "(\<exists>row \<in> set rows_1'. carries s p row) \<longleftrightarrow> (\<exists>row \<in> set rows_1. carries s p row)"
      using \<open>set rows_1' = set rows_1\<close> by simp
    ultimately show ?thesis
      using emitted_units [OF e' info, of s p q ow ds] emitted_units [OF assms(1) info, of s p q ow ds]
      by (simp add: e)
  qed
  then have "set ?ts' = set ts" by blast
  moreover have "distinct ?ts'" "distinct ts"
    using emitted_distinct [OF ok', of info] emitted_distinct [OF ok, of info] ts
    by (auto simp: distinct_map)
  ultimately have "mset ?ts' = mset ts"
    by (simp add: set_eq_iff_mset_eq_distinct)
  with e' show ?thesis by blast
qed

text \<open>
  C1. When the rows of both files are well formed, every record that the loop emits for
  a shipment identifier and a product name carries as quantity the number of fact rows
  with that identifier and that product, and the shipment rows appended to the store
  carry these quantities in the order of emission. Consuming the fact rows in another
  order emits the same records, up to the order of emission.
\<close>

theorem aggregation_counts_fact_rows:
  assumes "emitted_1_and_2 rows_1 rows_2 = Inr ts"
  shows "(\<forall>(s, p, q, ow, ds) \<in> set ts. q = units rows_1 s p) \<and>
         (\<exists>out new. process_shipping_data_1_and_2 c rows_1 rows_2 =
                       (persist c (map snd ts), out, None) \<and>
                     shipment_tbl (persist c (map snd ts)) = shipment_tbl c @ new \<and>
                     map (\<lambda>(product_id, quantity, ow, ds). quantity) new =
                       map (\<lambda>(s, p, q, ow, ds). units rows_1 s p) ts) \<and>
         (\<forall>rows_1'. mset rows_1' = mset rows_1 \<longrightarrow>
            (\<exists>ts'. emitted_1_and_2 rows_1' rows_2 = Inr ts' \<and> mset ts' = mset ts))"
proof (intro conjI)
  from emitted_1_and_2_Inr [OF assms] obtain info pc where info: "load_shipment_info Map.empty rows_2 = Inr info"
    and pc: "count_products [] rows_1 = Inr pc" and ts: "ts = emitted info pc"
    and ok: "counts_ok pc" and cnt: "\<forall>s p. count_of pc s p = units rows_1 s p"
    by blast
  show q: "\<forall>(s, p, q, ow, ds) \<in> set ts. q = units rows_1 s p"
    using emitted_units [OF assms info] by auto
  from persist_shipments [of c "map snd ts"] obtain new
    where new: "shipment_tbl (persist c (map snd ts)) = shipment_tbl c @ new"
      and rel: "list_all2 (\<lambda>row t. product_id_of (persist c (map snd ts)) (fst t) = Some (fst row) \<and>
                  snd row = snd t) new (map snd ts)"
    by blast
  from rel have "list_all2 (\<lambda>row e. fst (snd row) = fst (snd (snd e))) new ts"
    by (simp add: list_all2_map2 list_all2_mono)
  then have m: "map (\<lambda>row. fst (snd row)) new = map (\<lambda>e. fst (snd (snd e))) ts"
    by (simp add: list_all2_eq_map)
  have "map (\<lambda>(product_id, quantity, ow, ds). quantity) new = map (\<lambda>row. fst (snd row)) new"
    by (simp add: case_prod_beta)
  also note m
  also have "map (\<lambda>e. fst (snd (snd e))) ts = map (\<lambda>(s, p, q, ow, ds). units rows_1 s p) ts"
    using q by (intro map_cong) auto
  finally have "map (\<lambda>(product_id, quantity, ow, ds). quantity) new =
             map (\<lambda>(s, p, q, ow, ds). units rows_1 s p) ts" .
  with new process_shipping_data_1_and_2_emitted [OF info pc, of c] ts
  show "\<exists>out new. process_shipping_data_1_and_2 c rows_1 rows_2 =
                       (persist c (map snd ts), out, None) \<and>
                     shipment_tbl (persist c (map snd ts)) = shipment_tbl c @ new \<and>
                     map (\<lambda>(product_id, quantity, ow, ds). quantity) new =
                       map (\<lambda>(s, p, q, ow, ds). units rows_1 s p) ts"
    by blast
  show "\<forall>rows_1'. mset rows_1' = mset rows_1 \<longrightarrow>
            (\<exists>ts'. emitted_1_and_2 rows_1' rows_2 = Inr ts' \<and> mset ts' = mset ts)"
    using emitted_permuted [OF assms] by blast
qed

lemma fact_row_simps [simp]:
  "fact_row s p ''shipment_identifier'' = Some s"
  "fact_row s p ''product'' = Some p"
  "fact_row s p ''origin_warehouse'' = None"
  "fact_row s p ''destination_store'' = None"
  by (simp_all add: fact_row_def)

lemma location_row_simps [simp]:
  "location_row s ow ds ''shipment_identifier'' = Some s"
  "location_row s ow ds ''origin_warehouse'' = Some ow"
  "location_row s ow ds ''destination_store'' = Some ds"
  "location_row s ow ds ''product'' = None"
  by (simp_all add: location_row_def)

theorem aggregation_counts_fact_rows_witness:
  "emitted_1_and_2
     [fact_row ''A1'' ''Bolt'', fact_row ''A1'' ''Bolt'', fact_row ''A1'' ''Nut'']
     [location_row ''A1'' ''W2'' ''S2''] =
     Inr [(''A1'', ''Bolt'', 2, ''W2'', ''S2''), (''A1'', ''Nut'', 1, ''W2'', ''S2'')] \<and>
   units [fact_row ''A1'' ''Bolt'', fact_row ''A1'' ''Bolt'', fact_row ''A1'' ''Nut'']
     ''A1'' ''Bolt'' = 2 \<and>
   units [fact_row ''A1'' ''Bolt'', fact_row ''A1'' ''Bolt'', fact_row ''A1'' ''Nut'']
     ''A1'' ''Nut'' = 1 \<and>
   (\<exists>ts'. emitted_1_and_2
            [fact_row ''A1'' ''Nut'', fact_row ''A1'' ''Bolt'', fact_row ''A1'' ''Bolt'']
            [location_row ''A1'' ''W2'' ''S2''] = Inr ts' \<and>
          mset ts' =
            mset [(''A1'', ''Bolt'', 2, ''W2'', ''S2''), (''A1'', ''Nut'', 1, ''W2'', ''S2'')])"
proof -
  let ?rows = "[fact_row ''A1'' ''Bolt'', fact_row ''A1'' ''Bolt'', fact_row ''A1'' ''Nut'']"
  let ?locs = "[location_row ''A1'' ''W2'' ''S2'']"
  let ?ts = "[(''A1'', ''Bolt'', 2, ''W2'', ''S2''), (''A1'', ''Nut'', 1, ''W2'', ''S2'')]"
  have a: "emitted_1_and_2 ?rows ?locs = Inr ?ts"
    by (simp add: emitted_1_and_2_def getitem_def)
  have m: "mset [fact_row ''A1'' ''Nut'', fact_row ''A1'' ''Bolt'', fact_row ''A1'' ''Bolt''] =
           mset ?rows"
    by simp
  note t = aggregation_counts_fact_rows
             [OF a, of "\<lparr>product_tbl = [], shipment_tbl = []\<rparr>"]
  from t have "units ?rows ''A1'' ''Bolt'' = 2" "units ?rows ''A1'' ''Nut'' = 1"
    by auto
  moreover from t m
  have "\<exists>ts'. emitted_1_and_2
            [fact_row ''A1'' ''Nut'', fact_row ''A1'' ''Bolt'', fact_row ''A1'' ''Bolt''] ?locs
            = Inr ts' \<and> mset ts' = mset ?ts"
    by blast
  ultimately show ?thesis using a by simp
qed

lemma warnings_once:
  assumes "distinct keys" and "s \<in> set keys" and "info s = None"
  shows "filter (\<lambda>m. m = Warning s) (map Warning (filter (\<lambda>k. info k = None) keys)) = [Warning s]"
proof -
  let ?out = "map Warning (filter (\<lambda>k. info k = None) keys)"
  from assms(1) have "distinct (map (\<lambda>m. m) ?out)"
    by (simp add: distinct_map inj_on_def)
  moreover from assms(2,3) have "Warning s \<in> set ?out" by simp
  ultimately show ?thesis by (rule filter_key_single)
qed

text \<open>
  C4. When the rows of both files are well formed and a shipment identifier occurs in a
  fact row but in no location row, no record is emitted for that identifier, whatever
  its products; the function prints the warning for that identifier, once, and returns
  without raising, having inserted exactly the emitted records; and for every other
  identifier that has a location row, a record is still emitted for each product seen
  under it.
\<close>

theorem missing_location_skipped:
  assumes "emitted_1_and_2 rows_1 rows_2 = Inr ts"
    and "\<exists>row \<in> set rows_1. row ''shipment_identifier'' = Some s"
    and "\<forall>row \<in> set rows_2. row ''shipment_identifier'' \<noteq> Some s"
  shows "(\<forall>e \<in> set ts. fst e \<noteq> s) \<and>
         (\<exists>out. process_shipping_data_1_and_2 c rows_1 rows_2 =
                  (persist c (map snd ts), out, None) \<and>
                filter (\<lambda>m. m = Warning s) out = [Warning s]) \<and>
         (\<forall>s' p. (\<exists>row \<in> set rows_2. row ''shipment_identifier'' = Some s') \<and>
                 (\<exists>row \<in> set rows_1. carries s' p row) \<longrightarrow>
                 (\<exists>ow ds. (s', p, units rows_1 s' p, ow, ds) \<in> set ts))"
proof (intro conjI)
  from emitted_1_and_2_Inr [OF assms(1)] obtain info pc
    where info: "load_shipment_info Map.empty rows_2 = Inr info"
      and pc: "count_products [] rows_1 = Inr pc" and ts: "ts = emitted info pc"
      and ok: "counts_ok pc"
    by blast
  from load_shipment_info_dom [OF info, of s] assms(3) have none: "info s = None"
    by auto
  show "\<forall>e \<in> set ts. fst e \<noteq> s"
  proof
    fix e assume e: "e \<in> set ts"
    obtain s' p q ow ds where "e = (s', p, q, ow, ds)" by (cases e)
    with e none show "fst e \<noteq> s"
      by (auto simp: emitted_units [OF assms(1) info])
  qed
  from count_products_keys [OF pc] assms(2) have key: "s \<in> set (map fst pc)"
    by auto
  from ok have dist: "distinct (map fst pc)" by (simp add: counts_ok_def)
  from warnings_once [of "map fst pc" s info, OF dist key none] process_shipping_data_1_and_2_emitted [OF info pc, of c] ts
  show "\<exists>out. process_shipping_data_1_and_2 c rows_1 rows_2 =
                  (persist c (map snd ts), out, None) \<and>
                filter (\<lambda>m. m = Warning s) out = [Warning s]"
    by simp
  show "\<forall>s' p. (\<exists>row \<in> set rows_2. row ''shipment_identifier'' = Some s') \<and>
                 (\<exists>row \<in> set rows_1. carries s' p row) \<longrightarrow>
                 (\<exists>ow ds. (s', p, units rows_1 s' p, ow, ds) \<in> set ts)"
  proof (intro allI impI)
    fix s' p
    assume a: "(\<exists>row \<in> set rows_2. row ''shipment_identifier'' = Some s') \<and>
                 (\<exists>row \<in> set rows_1. carries s' p row)"
    with load_shipment_info_dom [OF info, of s'] obtain loc where loc: "info s' = Some loc"
      by auto
    have "loc = \<lparr>origin = origin loc, destination = destination loc\<rparr>" by simp
    with loc a have "(s', p, units rows_1 s' p, origin loc, destination loc) \<in> set ts"
      by (simp add: emitted_units [OF assms(1) info])
    then show "\<exists>ow ds. (s', p, units rows_1 s' p, ow, ds) \<in> set ts" by blast
  qed
qed

theorem missing_location_skipped_witness:
  "emitted_1_and_2
     [fact_row ''B7'' ''Nut'', fact_row ''A1'' ''Bolt'', fact_row ''B7'' ''Bolt'']
     [location_row ''A1'' ''W2'' ''S2''] = Inr [(''A1'', ''Bolt'', 1, ''W2'', ''S2'')] \<and>
   process_shipping_data_1_and_2 \<lparr>product_tbl = [], shipment_tbl = []\<rparr>
     [fact_row ''B7'' ''Nut'', fact_row ''A1'' ''Bolt'', fact_row ''B7'' ''Bolt'']
     [location_row ''A1'' ''W2'' ''S2''] =
     (\<lparr>product_tbl = [(1, ''Bolt'')], shipment_tbl = [(1, 1, ''W2'', ''S2'')]\<rparr>,
      [Warning ''B7''], None)"
proof -
  let ?rows = "[fact_row ''B7'' ''Nut'', fact_row ''A1'' ''Bolt'', fact_row ''B7'' ''Bolt'']"
  let ?locs = "[location_row ''A1'' ''W2'' ''S2'']"
  let ?db = "\<lparr>product_tbl = [], shipment_tbl = []\<rparr>"
  have a: "emitted_1_and_2 ?rows ?locs = Inr [(''A1'', ''Bolt'', 1, ''W2'', ''S2'')]"
    by (simp add: emitted_1_and_2_def getitem_def)
  have b: "\<exists>row \<in> set ?rows. row ''shipment_identifier'' = Some ''B7''"
    by simp
  have c: "\<forall>row \<in> set ?locs. row ''shipment_identifier'' \<noteq> Some ''B7''"
    by simp
  from missing_location_skipped [OF a b c, of ?db]
  obtain out where out: "process_shipping_data_1_and_2 ?db ?rows ?locs =
      (persist ?db (map snd [(''A1'', ''Bolt'', 1, ''W2'', ''S2'')]), out, None)"
    by blast
  have p: "persist ?db (map snd [(''A1'', ''Bolt'', 1, ''W2'', ''S2'')]) =
      \<lparr>product_tbl = [(1, ''Bolt'')], shipment_tbl = [(1, 1, ''W2'', ''S2'')]\<rparr>"
    by (simp add: get_or_create_product_def lastrowid_def insert_shipment_def)
  have "process_shipping_data_1_and_2 ?db ?rows ?locs =
      (persist ?db (map snd [(''A1'', ''Bolt'', 1, ''W2'', ''S2'')]), [Warning ''B7''], None)"
    using out by (simp add: process_shipping_data_1_and_2_def getitem_def split: prod.splits)
  with a p show ?thesis by simp
qed

text \<open>
  C6. Several location rows with the same shipment identifier are no error: when every
  location row has its three fields, the dictionary is built, and under an identifier
  it holds the origin and the destination of the last row of that identifier in the
  file, whatever rows of the same identifier came before.
\<close>

theorem shipment_info_last_write_wins:
  assumes "\<forall>row \<in> set (before @ r # after).
             row ''shipment_identifier'' \<noteq> None \<and> row ''origin_warehouse'' \<noteq> None \<and>
             row ''destination_store'' \<noteq> None"
    and "r ''shipment_identifier'' = Some s"
    and "\<forall>row \<in> set after. row ''shipment_identifier'' \<noteq> Some s"
  shows "\<exists>info ow ds. load_shipment_info Map.empty (before @ r # after) = Inr info \<and>
           r ''origin_warehouse'' = Some ow \<and> r ''destination_store'' = Some ds \<and>
           info s = Some \<lparr>origin = ow, destination = ds\<rparr>"
proof -
  from load_shipment_info_succeeds [OF assms(1), of Map.empty]
  obtain info where info: "load_shipment_info Map.empty (before @ r # after) = Inr info"
    by blast
  from load_shipment_info_last [OF info assms(2) assms(3)] info show ?thesis
    by blast
qed

theorem shipment_info_last_write_wins_witness:
  "\<exists>info. load_shipment_info Map.empty
            [location_row ''A1'' ''W1'' ''S1'', location_row ''A1'' ''W2'' ''S2'',
             location_row ''B7'' ''W3'' ''S3''] = Inr info \<and>
          info ''A1'' = Some \<lparr>origin = ''W2'', destination = ''S2''\<rparr>"
proof -
  let ?before = "[location_row ''A1'' ''W1'' ''S1'']"
  let ?r = "location_row ''A1'' ''W2'' ''S2''"
  let ?after = "[location_row ''B7'' ''W3'' ''S3'']"
  have a: "\<forall>row \<in> set (?before @ ?r # ?after).
             row ''shipment_identifier'' \<noteq> None \<and> row ''origin_warehouse'' \<noteq> None \<and>
             row ''destination_store'' \<noteq> None"
    by simp
  have b: "?r ''shipment_identifier'' = Some ''A1''"
    by simp
  have c: "\<forall>row \<in> set ?after. row ''shipment_identifier'' \<noteq> Some ''A1''"
    by simp
  from shipment_info_last_write_wins [OF a b c]
  obtain info ow ds where i: "load_shipment_info Map.empty (?before @ ?r # ?after) = Inr info"
    and ow: "?r ''origin_warehouse'' = Some ow" and ds: "?r ''destination_store'' = Some ds"
    and s: "info ''A1'' = Some \<lparr>origin = ow, destination = ds\<rparr>"
    by blast
  from i have "load_shipment_info Map.empty
            [location_row ''A1'' ''W1'' ''S1'', location_row ''A1'' ''W2'' ''S2'',
             location_row ''B7'' ''W3'' ''S3''] = Inr info"
    by (simp only: append.simps)
  moreover from ow ds s have "info ''A1'' = Some \<lparr>origin = ''W2'', destination = ''S2''\<rparr>"
    by simp
  ultimately show ?thesis by blast
qed

lemma list_all2_trans_rel:
  "list_all2 P xs ys \<Longrightarrow> list_all2 Q ys zs \<Longrightarrow> (\<And>x y z. P x y \<Longrightarrow> Q y z \<Longrightarrow> R x z) \<Longrightarrow>
     list_all2 R xs zs"
proof (induction xs ys arbitrary: zs rule: list_all2_induct)
  case Nil
  then show ?case by simp
next
  case (Cons x xs y ys)
  from Cons.prems(1) obtain z zs' where z: "zs = z # zs'" "Q y z" "list_all2 Q ys zs'"
    by (cases zs) auto
  from Cons.IH [OF z(3) Cons.prems(2)] Cons.hyps(1) z(2) Cons.prems(2) z(1)
  show ?case by simp
qed

lemma list_all2_left_mem:
  "list_all2 P xs ys \<Longrightarrow> x \<in> set xs \<Longrightarrow> \<exists>y \<in> set ys. P x y"
  by (induction xs ys rule: list_all2_induct) auto

lemma list_all2_refine:
  "list_all2 P xs ys \<Longrightarrow> (\<And>x y. y \<in> set ys \<Longrightarrow> P x y \<Longrightarrow> Q x y) \<Longrightarrow> list_all2 Q xs ys"
  by (induction xs ys rule: list_all2_induct) auto

text \<open>
  C2. When the rows of both files are well formed and a shipment identifier occurs in a
  fact row and in a location row, then for each product name seen under that identifier
  in the fact rows exactly one record is emitted for the identifier and the product;
  its quantity is the number of fact rows of the pair, and its origin and destination
  are the \<open>origin_warehouse\<close> and \<open>destination_store\<close> of the location row of that
  identifier (the last one in the file, should there be several). No record is
  emitted for the identifier with a product that was not seen under it. The function
  returns without raising, and the shipment rows that it appends to the store are, one
  for one and in order, the emitted records: each row carries the id under which the
  store holds the product name of its record, and the quantity, origin and destination
  of the record, so that the rows written for the identifier carry the origin and the
  destination of its location row.
\<close>

theorem join_one_record_per_product:
  assumes "emitted_1_and_2 rows_1 rows_2 = Inr ts"
    and "\<exists>row \<in> set rows_1. row ''shipment_identifier'' = Some s"
    and "rows_2 = before @ r # after"
    and "r ''shipment_identifier'' = Some s"
    and "\<forall>row \<in> set after. row ''shipment_identifier'' \<noteq> Some s"
  shows "\<exists>ow ds. r ''origin_warehouse'' = Some ow \<and> r ''destination_store'' = Some ds \<and>
           (\<forall>p. (\<exists>row \<in> set rows_1. carries s p row) \<longrightarrow>
                filter (\<lambda>e. emission_key e = (s, p)) ts = [(s, p, units rows_1 s p, ow, ds)]) \<and>
           (\<forall>e \<in> set ts. fst e = s \<longrightarrow> (\<exists>row \<in> set rows_1. carries s (fst (snd e)) row)) \<and>
           (\<exists>out c' new.
              process_shipping_data_1_and_2 c rows_1 rows_2 = (c', out, None) \<and>
              c' = persist c (map snd ts) \<and>
              shipment_tbl c' = shipment_tbl c @ new \<and>
              list_all2
                (\<lambda>(product_id, quantity, worigin, wdestination) (s', p, q, ow', ds').
                   product_id_of c' p = Some product_id \<and>
                   quantity = q \<and> worigin = ow' \<and> wdestination = ds' \<and>
                   (s' = s \<longrightarrow> quantity = units rows_1 s p \<and> worigin = ow \<and> wdestination = ds))
                new ts)"
proof -
  from emitted_1_and_2_Inr [OF assms(1)] obtain info pc
    where info: "load_shipment_info Map.empty rows_2 = Inr info"
      and pc: "count_products [] rows_1 = Inr pc" and ts: "ts = emitted info pc"
      and ok: "counts_ok pc"
    by blast
  from load_shipment_info_last [OF info [unfolded assms(3)] assms(4) assms(5)]
  obtain ow ds where ow: "r ''origin_warehouse'' = Some ow"
    and ds: "r ''destination_store'' = Some ds"
    and loc: "info s = Some \<lparr>origin = ow, destination = ds\<rparr>"
    by blast
  have one: "filter (\<lambda>e. emission_key e = (s, p)) ts = [(s, p, units rows_1 s p, ow, ds)]"
    if "\<exists>row \<in> set rows_1. carries s p row" for p
  proof -
    from that loc have mem: "(s, p, units rows_1 s p, ow, ds) \<in> set ts"
      by (simp add: emitted_units [OF assms(1) info])
    from emitted_distinct [OF ok, of info] ts
    have "distinct (map emission_key ts)" by simp
    from filter_key_single [OF this mem] show ?thesis
      by (simp add: emission_key_def)
  qed
  have seen: "\<exists>row \<in> set rows_1. carries s (fst (snd e)) row" if "e \<in> set ts" "fst e = s" for e
  proof -
    obtain s' p q ow' ds' where e: "e = (s', p, q, ow', ds')" by (cases e)
    with that show ?thesis
      by (simp add: emitted_units [OF assms(1) info])
  qed
  let ?c' = "persist c (map snd ts)"
  from process_shipping_data_1_and_2_emitted [OF info pc, of c] ts
  obtain out where run: "process_shipping_data_1_and_2 c rows_1 rows_2 = (?c', out, None)"
    by simp
  from persist_shipments [of c "map snd ts"] obtain new
    where new: "shipment_tbl ?c' = shipment_tbl c @ new"
      and rel: "list_all2 (\<lambda>row t. product_id_of ?c' (fst t) = Some (fst row) \<and> snd row = snd t)
                  new (map snd ts)"
    by blast
  from rel have rel': "list_all2 (\<lambda>row e. product_id_of ?c' (fst (snd e)) = Some (fst row) \<and>
                  snd row = snd (snd e)) new ts"
    by (simp add: list_all2_map2)
  have written: "list_all2
                (\<lambda>(product_id, quantity, worigin, wdestination) (s', p, q, ow', ds').
                   product_id_of ?c' p = Some product_id \<and>
                   quantity = q \<and> worigin = ow' \<and> wdestination = ds' \<and>
                   (s' = s \<longrightarrow> quantity = units rows_1 s p \<and> worigin = ow \<and> wdestination = ds))
                new ts"
  proof (rule list_all2_refine [OF rel'])
    fix x :: shipment_row and e :: emission
    assume e: "e \<in> set ts"
      and xe: "product_id_of ?c' (fst (snd e)) = Some (fst x) \<and> snd x = snd (snd e)"
    obtain s' p q ow' ds' where ee: "e = (s', p, q, ow', ds')" by (cases e)
    obtain pid q' ow'' ds'' where xx: "x = (pid, q', ow'', ds'')" by (cases x)
    from e ee have "info s' = Some \<lparr>origin = ow', destination = ds'\<rparr> \<and> q = units rows_1 s' p"
      by (simp add: emitted_units [OF assms(1) info])
    with loc have "s' = s \<longrightarrow> q = units rows_1 s p \<and> ow' = ow \<and> ds' = ds"
      by auto
    with xe show "(case x of (product_id, quantity, worigin, wdestination) \<Rightarrow>
                   \<lambda>(s', p, q, ow', ds').
                   product_id_of ?c' p = Some product_id \<and>
                   quantity = q \<and> worigin = ow' \<and> wdestination = ds' \<and>
                   (s' = s \<longrightarrow> quantity = units rows_1 s p \<and> worigin = ow \<and> wdestination = ds)) e"
      by (simp add: ee xx)
  qed
  from run new written
  have "\<exists>out c' new.
              process_shipping_data_1_and_2 c rows_1 rows_2 = (c', out, None) \<and>
              c' = persist c (map snd ts) \<and>
              shipment_tbl c' = shipment_tbl c @ new \<and>
              list_all2
                (\<lambda>(product_id, quantity, worigin, wdestination) (s', p, q, ow', ds').
                   product_id_of c' p = Some product_id \<and>
                   quantity = q \<and> worigin = ow' \<and> wdestination = ds' \<and>
                   (s' = s \<longrightarrow> quantity = units rows_1 s p \<and> worigin = ow \<and> wdestination = ds))
                new ts"
    by blast
  with ow ds one seen show ?thesis by blast
qed

theorem join_one_record_per_product_witness:
  "process_shipping_data_1_and_2 \<lparr>product_tbl = [], shipment_tbl = []\<rparr>
     [fact_row ''A1'' ''Bolt'', fact_row ''B7'' ''Bolt'', fact_row ''A1'' ''Bolt'',
      fact_row ''A1'' ''Nut'']
     [location_row ''A1'' ''W1'' ''S1'', location_row ''A1'' ''W2'' ''S2'',
      location_row ''B7'' ''W3'' ''S3''] =
     (\<lparr>product_tbl = [(1, ''Bolt''), (2, ''Nut'')],
       shipment_tbl = [(1, 2, ''W2'', ''S2''), (2, 1, ''W2'', ''S2''), (1, 1, ''W3'', ''S3'')]\<rparr>,
      [], None) \<and>
   filter (\<lambda>e. emission_key e = (''A1'', ''Bolt''))
     [(''A1'', ''Bolt'', 2, ''W2'', ''S2''), (''A1'', ''Nut'', 1, ''W2'', ''S2''),
      (''B7'', ''Bolt'', 1, ''W3'', ''S3'')] =
     [(''A1'', ''Bolt'',
       units [fact_row ''A1'' ''Bolt'', fact_row ''B7'' ''Bolt'', fact_row ''A1'' ''Bolt'',
              fact_row ''A1'' ''Nut''] ''A1'' ''Bolt'',
       ''W2'', ''S2'')] \<and>
   list_all2
     (\<lambda>(product_id, quantity, worigin, wdestination) (s', p, q, ow', ds').
        quantity = q \<and> worigin = ow' \<and> wdestination = ds' \<and>
        (s' = ''A1'' \<longrightarrow> worigin = ''W2'' \<and> wdestination = ''S2''))
     [(1::int, 2::int, ''W2'', ''S2''), (2, 1, ''W2'', ''S2''), (1, 1, ''W3'', ''S3'')]
     [(''A1'', ''Bolt'', 2::int, ''W2'', ''S2''), (''A1'', ''Nut'', 1, ''W2'', ''S2''),
      (''B7'', ''Bolt'', 1, ''W3'', ''S3'')]"
proof -
  let ?db = "\<lparr>product_tbl = [], shipment_tbl = []\<rparr>"
  let ?rows = "[fact_row ''A1'' ''Bolt'', fact_row ''B7'' ''Bolt'', fact_row ''A1'' ''Bolt'',
      fact_row ''A1'' ''Nut'']"
  let ?ts = "[(''A1'', ''Bolt'', 2::int, ''W2'', ''S2''), (''A1'', ''Nut'', 1, ''W2'', ''S2''),
          (''B7'', ''Bolt'', 1, ''W3'', ''S3'')]"
  let ?r = "location_row ''A1'' ''W2'' ''S2''"
  have a: "emitted_1_and_2 ?rows
     ([location_row ''A1'' ''W1'' ''S1''] @ ?r # [location_row ''B7'' ''W3'' ''S3'']) = Inr ?ts"
    by (simp add: emitted_1_and_2_def getitem_def)
  have b: "\<exists>row \<in> set ?rows. row ''shipment_identifier'' = Some ''A1''"
    by simp
  have c: "\<forall>row \<in> set [location_row ''B7'' ''W3'' ''S3'']. row ''shipment_identifier'' \<noteq> Some ''A1''"
    by simp
  have d: "\<exists>row \<in> set ?rows. carries ''A1'' ''Bolt'' row"
    by (simp add: carries_def)
  have r: "?r ''shipment_identifier'' = Some ''A1''"
    by simp
  have p: "persist ?db (map snd ?ts) =
     \<lparr>product_tbl = [(1, ''Bolt''), (2, ''Nut'')],
       shipment_tbl = [(1, 2, ''W2'', ''S2''), (2, 1, ''W2'', ''S2''), (1, 1, ''W3'', ''S3'')]\<rparr>"
    by (simp add: get_or_create_product_def lastrowid_def insert_shipment_def)
  from join_one_record_per_product [OF a b refl r c, of ?db]
  obtain ow ds out c' new where ow: "?r ''origin_warehouse'' = Some ow"
    and ds: "?r ''destination_store'' = Some ds"
    and one: "\<forall>p. (\<exists>row \<in> set ?rows. carries ''A1'' p row) \<longrightarrow>
                filter (\<lambda>e. emission_key e = (''A1'', p)) ?ts =
                  [(''A1'', p, units ?rows ''A1'' p, ow, ds)]"
    and run: "process_shipping_data_1_and_2 ?db ?rows
                ([location_row ''A1'' ''W1'' ''S1''] @ ?r # [location_row ''B7'' ''W3'' ''S3'']) =
                (c', out, None)"
    and c': "c' = persist ?db (map snd ?ts)"
    and new: "shipment_tbl c' = shipment_tbl ?db @ new"
    and rel: "list_all2
                (\<lambda>(product_id, quantity, worigin, wdestination) (s', p, q, ow', ds').
                   product_id_of c' p = Some product_id \<and>
                   quantity = q \<and> worigin = ow' \<and> wdestination = ds' \<and>
                   (s' = ''A1'' \<longrightarrow> quantity = units ?rows ''A1'' p \<and> worigin = ow \<and>
                      wdestination = ds))
                new ?ts"
    by blast
  from ow ds have owds: "ow = ''W2''" "ds = ''S2''" by simp_all
  from new c' p have n: "new = [(1, 2, ''W2'', ''S2''), (2, 1, ''W2'', ''S2''), (1, 1, ''W3'', ''S3'')]"
    by simp
  from run have out: "out = []"
    by (simp add: process_shipping_data_1_and_2_def getitem_def split: prod.splits)
  from one d owds
  have f: "filter (\<lambda>e. emission_key e = (''A1'', ''Bolt'')) ?ts =
          [(''A1'', ''Bolt'', units ?rows ''A1'' ''Bolt'', ''W2'', ''S2'')]"
    by blast
  from rel [unfolded n owds]
  have l: "list_all2
     (\<lambda>(product_id, quantity, worigin, wdestination) (s', p, q, ow', ds').
        quantity = q \<and> worigin = ow' \<and> wdestination = ds' \<and>
        (s' = ''A1'' \<longrightarrow> worigin = ''W2'' \<and> wdestination = ''S2''))
     [(1::int, 2::int, ''W2'', ''S2''), (2, 1, ''W2'', ''S2''), (1, 1, ''W3'', ''S3'')] ?ts"
    by (rule list_all2_mono) auto
  from run c' p out have "process_shipping_data_1_and_2 ?db ?rows
     [location_row ''A1'' ''W1'' ''S1'', ?r, location_row ''B7'' ''W3'' ''S3''] =
     (\<lparr>product_tbl = [(1, ''Bolt''), (2, ''Nut'')],
       shipment_tbl = [(1, 2, ''W2'', ''S2''), (2, 1, ''W2'', ''S2''), (1, 1, ''W3'', ''S3'')]\<rparr>,
      [], None)"
    by (simp only: append.simps)
  with f l show ?thesis by (simp only: simp_thms)
qed

section \<open>Properties of integer literals\<close>

lemmas py_int_eval = py_int_def strip_def is_space_def signed_literal_def int_literal_def
  is_digit_def digit_value_def py_int_cell_def

lemma py_int_cases: "py_int t = Inl (ValueError t) \<or> (\<exists>n. py_int t = Inr n)"
  by (simp add: py_int_def split: option.splits)

lemma py_int_too_long: "4300 < length (filter is_digit s) \<Longrightarrow> py_int s = Inl (ValueError s)"
  by (simp add: py_int_def split: option.splits)

lemma digit_not_space: "is_digit c \<Longrightarrow> \<not> is_space c"
  by (auto simp: is_digit_def is_space_def)

lemma digit_not_sign: "is_digit c \<Longrightarrow> c \<noteq> CHR ''-'' \<and> c \<noteq> CHR ''+'' \<and> c \<noteq> CHR ''_''"
  by (auto simp: is_digit_def)

lemma int_digits_all_digits:
  "\<forall>c \<in> set cs. is_digit c \<Longrightarrow>
     int_digits acc cs = Some (foldl (\<lambda>a c. 10 * a + digit_value c) acc cs)"
  by (induction cs arbitrary: acc) auto

lemma strip_digits:
  assumes "ds \<noteq> []" and "\<forall>c \<in> set ds. is_digit c"
  shows "strip ds = ds"
proof -
  from assms obtain c cs where ds: "ds = c # cs" by (cases ds) auto
  with assms(2) have "\<not> is_space c" by (simp add: digit_not_space)
  then have a: "dropWhile is_space ds = ds" by (simp add: ds)
  from assms have "\<not> is_space (last ds)" by (simp add: digit_not_space)
  then have "\<not> is_space (hd (rev ds))" using assms(1) by (simp add: hd_rev)
  moreover have "rev ds \<noteq> []" using assms(1) by simp
  ultimately have "dropWhile is_space (rev ds) = rev ds"
    by (cases "rev ds") auto
  with a show ?thesis by (simp add: strip_def)
qed

text \<open>
  On a string of one to 4300 decimal digits, \<^verbatim>\<open>int\<close> gives the number that the digits
  write in base 10.
\<close>

lemma py_int_digits:
  assumes "ds \<noteq> []" and "\<forall>c \<in> set ds. is_digit c" and "length ds \<le> 4300"
  shows "py_int ds = Inr (foldl (\<lambda>a c. 10 * a + digit_value c) 0 ds)"
proof -
  from assms obtain c cs where ds: "ds = c # cs" by (cases ds) auto
  from assms(2) have f: "filter is_digit ds = ds" by simp
  from assms(2) ds have c: "is_digit c" and cs: "\<forall>c \<in> set cs. is_digit c" by simp_all
  have "signed_literal ds = Some (foldl (\<lambda>a c. 10 * a + digit_value c) 0 ds)"
    using c digit_not_sign [OF c] int_digits_all_digits [OF cs]
    by (simp add: signed_literal_def int_literal_def ds)
  with strip_digits [OF assms(1,2)] f assms(3) show ?thesis
    by (simp add: py_int_def)
qed

text \<open>
  What \<^verbatim>\<open>int\<close> makes of some strings: signs, leading zeros, white space at the ends,
  underscores between digits; and the strings that it refuses.
\<close>

lemma py_int_examples:
  "py_int ''5'' = Inr 5"
  "py_int ''007'' = Inr 7"
  "py_int ''-0'' = Inr 0"
  "py_int ''+12'' = Inr 12"
  "py_int '' 12'' = Inr 12"
  "py_int ''12 '' = Inr 12"
  "py_int [CHR 0x09, CHR ''1'', CHR ''2'', CHR 0x0A] = Inr 12"
  "py_int [CHR 0x0B, CHR ''1'', CHR ''2'', CHR 0x0C] = Inr 12"
  "py_int [CHR 0x0D, CHR ''1'', CHR ''2''] = Inr 12"
  "py_int ''1_2'' = Inr 12"
  "py_int ''1_2_3'' = Inr 123"
  "py_int ''0_0'' = Inr 0"
  "py_int '' +1_0 '' = Inr 10"
  "py_int [CHR 0xA0, CHR ''1'', CHR ''2''] = Inr 12"
  "py_int [CHR ''1'', CHR ''2'', CHR 0x85] = Inr 12"
  "py_int ''_12'' = Inl (ValueError ''_12'')"
  "py_int ''12_'' = Inl (ValueError ''12_'')"
  "py_int ''1__2'' = Inl (ValueError ''1__2'')"
  "py_int ''- 12'' = Inl (ValueError ''- 12'')"
  "py_int ''+-12'' = Inl (ValueError ''+-12'')"
  "py_int ''--12'' = Inl (ValueError ''--12'')"
  "py_int ''1 2'' = Inl (ValueError ''1 2'')"
  "py_int ''1.5'' = Inl (ValueError ''1.5'')"
  "py_int ''1e3'' = Inl (ValueError ''1e3'')"
  "py_int ''0x1A'' = Inl (ValueError ''0x1A'')"
  "py_int '''' = Inl (ValueError '''')"
  "py_int '' '' = Inl (ValueError '' '')"
  "py_int ''+'' = Inl (ValueError ''+'')"
  "py_int ''-'' = Inl (ValueError ''-'')"
  "py_int ''12a'' = Inl (ValueError ''12a'')"
  "py_int [CHR 0x1C, CHR ''1'', CHR ''2''] = Inl (ValueError [CHR 0x1C, CHR ''1'', CHR ''2''])"
  "py_int [CHR ''1'', CHR ''2'', CHR 0x1F] = Inl (ValueError [CHR ''1'', CHR ''2'', CHR 0x1F])"
  "py_int [CHR 0x1D, CHR ''1'', CHR ''2''] = Inl (ValueError [CHR 0x1D, CHR ''1'', CHR ''2''])"
  "py_int [CHR 0x1E, CHR ''1'', CHR ''2''] = Inl (ValueError [CHR 0x1E, CHR ''1'', CHR ''2''])"
  "py_int ''+_1'' = Inl (ValueError ''+_1'')"
  "py_int ''1,000'' = Inl (ValueError ''1,000'')"
  "py_int [CHR 0x00, CHR ''1'', CHR ''2''] = Inl (ValueError [CHR 0x00, CHR ''1'', CHR ''2''])"
  "py_int [CHR ''1'', CHR ''2'', CHR 0x00] = Inl (ValueError [CHR ''1'', CHR ''2'', CHR 0x00])"
  by (simp_all add: py_int_eval)

section \<open>Properties of the self-contained family\<close>

lemma getitem_simps [simp]:
  "row key = None \<Longrightarrow> getitem row key = Inl (KeyError key)"
  "row key = Some v \<Longrightarrow> getitem row key = Inr v"
  by (simp_all add: getitem_def)

text \<open>
  C9, as the code has it. The reads of a self-contained row raise, in the order of the
  source: \<^verbatim>\<open>KeyError\<close> for \<open>product\<close> or \<open>product_quantity\<close> when the header of the
  file lacks the column; \<^verbatim>\<open>TypeError\<close> when the line has no cell for
  \<open>product_quantity\<close>; \<^verbatim>\<open>ValueError\<close> when the text of that cell is not an integer
  literal; \<^verbatim>\<open>KeyError\<close> for \<open>origin_warehouse\<close> or \<open>destination_store\<close> when the header
  lacks the column. Otherwise they give the tuple of the product cell, the integer, the
  origin cell and the destination cell, where a cell that the line lacks is \<^verbatim>\<open>None\<close>
  and is not refused. The reads touch nothing but the row: when they raise, the loop
  leaves the cursor as it found it at that row, whatever follows in the file.
\<close>

theorem normalize_row_malformed_or_canonical:
  "(row ''product'' = None \<longrightarrow> normalize_row row = Inl (KeyError ''product'')) \<and>
   (row ''product'' \<noteq> None \<and> row ''product_quantity'' = None \<longrightarrow>
      normalize_row row = Inl (KeyError ''product_quantity'')) \<and>
   (row ''product'' \<noteq> None \<and> row ''product_quantity'' = Some None \<longrightarrow>
      normalize_row row = Inl TypeError) \<and>
   (row ''product'' \<noteq> None \<and> row ''product_quantity'' = Some (Some t) \<and>
    py_int t = Inl (ValueError t) \<longrightarrow>
      normalize_row row = Inl (ValueError t)) \<and>
   (row ''product'' \<noteq> None \<and> row ''product_quantity'' = Some (Some t) \<and> py_int t = Inr q \<and>
    row ''origin_warehouse'' = None \<longrightarrow>
      normalize_row row = Inl (KeyError ''origin_warehouse'')) \<and>
   (row ''product'' \<noteq> None \<and> row ''product_quantity'' = Some (Some t) \<and> py_int t = Inr q \<and>
    row ''origin_warehouse'' \<noteq> None \<and> row ''destination_store'' = None \<longrightarrow>
      normalize_row row = Inl (KeyError ''destination_store'')) \<and>
   (row ''product'' = Some p \<and> row ''product_quantity'' = Some (Some t) \<and> py_int t = Inr q \<and>
    row ''origin_warehouse'' = Some ow \<and> row ''destination_store'' = Some ds \<longrightarrow>
      normalize_row row = Inr (p, q, ow, ds)) \<and>
   (normalize_row row = Inl e \<longrightarrow>
      process_shipping_data_0 c (row # rows, failure) = (c, Some e))"
proof (intro conjI impI)
  assume "row ''product'' = None"
  then show "normalize_row row = Inl (KeyError ''product'')"
    by (simp add: normalize_row_def)
next
  assume "row ''product'' \<noteq> None \<and> row ''product_quantity'' = None"
  then show "normalize_row row = Inl (KeyError ''product_quantity'')"
    by (auto simp: normalize_row_def)
next
  assume "row ''product'' \<noteq> None \<and> row ''product_quantity'' = Some None"
  then show "normalize_row row = Inl TypeError"
    by (auto simp: normalize_row_def py_int_cell_def)
next
  assume "row ''product'' \<noteq> None \<and> row ''product_quantity'' = Some (Some t) \<and>
    py_int t = Inl (ValueError t)"
  then show "normalize_row row = Inl (ValueError t)"
    by (auto simp: normalize_row_def py_int_cell_def)
next
  assume "row ''product'' \<noteq> None \<and> row ''product_quantity'' = Some (Some t) \<and>
    py_int t = Inr q \<and> row ''origin_warehouse'' = None"
  then show "normalize_row row = Inl (KeyError ''origin_warehouse'')"
    by (auto simp: normalize_row_def py_int_cell_def)
next
  assume "row ''product'' \<noteq> None \<and> row ''product_quantity'' = Some (Some t) \<and>
    py_int t = Inr q \<and> row ''origin_warehouse'' \<noteq> None \<and> row ''destination_store'' = None"
  then show "normalize_row row = Inl (KeyError ''destination_store'')"
    by (auto simp: normalize_row_def py_int_cell_def)
next
  assume "row ''product'' = Some p \<and> row ''product_quantity'' = Some (Some t) \<and>
    py_int t = Inr q \<and> row ''origin_warehouse'' = Some ow \<and> row ''destination_store'' = Some ds"
  then show "normalize_row row = Inr (p, q, ow, ds)"
    by (simp add: normalize_row_def py_int_cell_def)
next
  assume "normalize_row row = Inl e"
  then show "process_shipping_data_0 c (row # rows, failure) = (c, Some e)"
    by simp
qed

theorem normalize_row_malformed_or_canonical_witness:
  "map normalize_row (dict_reader fields_0
     [[''W1'', ''S1'', ''Widget'', ''True'', '' 1_000 '', ''D7''],
      [''W1'', ''S1'', ''Widget'', ''True'', ''-5'', ''D7''],
      [],
      [''W1'', ''S1'', ''Widget'', ''True'', ''five'', ''D7''],
      [''W1'', ''S1'', ''Widget'', ''True'', [CHR 0x1C, CHR ''7''], ''D7''],
      [''W1'', ''S1'', ''Widget'', ''True'', ''1__0'', ''D7''],
      [''W1'', ''S1'', ''Widget'', ''True'', '''', ''D7''],
      [''W1'', ''S1'', ''Widget'', ''True''],
      [''W1'', ''S1'', ''Widget'', ''True'', ''+7'', ''D7'', ''extra'']]) =
   [Inr (Some ''Widget'', 1000, Some ''W1'', Some ''S1''),
    Inr (Some ''Widget'', - 5, Some ''W1'', Some ''S1''),
    Inl (ValueError ''five''),
    Inl (ValueError [CHR 0x1C, CHR ''7'']),
    Inl (ValueError ''1__0''),
    Inl (ValueError ''''),
    Inl TypeError,
    Inr (Some ''Widget'', 7, Some ''W1'', Some ''S1'')] \<and>
   map normalize_row (dict_reader [''origin_warehouse'', ''destination_store'', ''product'']
     [[''W1'', ''S1'', ''Widget'']]) = [Inl (KeyError ''product_quantity'')] \<and>
   process_shipping_data_0 \<lparr>product_tbl = [(1, ''Widget'')], shipment_tbl = []\<rparr>
     (dict_reader fields_0 [[''W1'', ''S1'', ''Widget'', ''True'', ''five'', ''D7'']], None) =
     (\<lparr>product_tbl = [(1, ''Widget'')], shipment_tbl = []\<rparr>, Some (ValueError ''five''))"
proof -
  let ?db = "\<lparr>product_tbl = [(1, ''Widget'')], shipment_tbl = []\<rparr>"
  define five where
    "five = hd (dict_reader fields_0 [[''W1'', ''S1'', ''Widget'', ''True'', ''five'', ''D7'']])"
  define good where
    "good = hd (dict_reader fields_0 [[''W1'', ''S1'', ''Widget'', ''True'', '' 1_000 '', ''D7'']])"
  define short where
    "short = hd (dict_reader fields_0 [[''W1'', ''S1'', ''Widget'', ''True'']])"
  define nocol where
    "nocol = hd (dict_reader [''origin_warehouse'', ''destination_store'', ''product'']
                   [[''W1'', ''S1'', ''Widget'']])"
  have all: "map normalize_row (dict_reader fields_0
     [[''W1'', ''S1'', ''Widget'', ''True'', '' 1_000 '', ''D7''],
      [''W1'', ''S1'', ''Widget'', ''True'', ''-5'', ''D7''],
      [],
      [''W1'', ''S1'', ''Widget'', ''True'', ''five'', ''D7''],
      [''W1'', ''S1'', ''Widget'', ''True'', [CHR 0x1C, CHR ''7''], ''D7''],
      [''W1'', ''S1'', ''Widget'', ''True'', ''1__0'', ''D7''],
      [''W1'', ''S1'', ''Widget'', ''True'', '''', ''D7''],
      [''W1'', ''S1'', ''Widget'', ''True''],
      [''W1'', ''S1'', ''Widget'', ''True'', ''+7'', ''D7'', ''extra'']]) =
   [Inr (Some ''Widget'', 1000, Some ''W1'', Some ''S1''),
    Inr (Some ''Widget'', - 5, Some ''W1'', Some ''S1''),
    Inl (ValueError ''five''),
    Inl (ValueError [CHR 0x1C, CHR ''7'']),
    Inl (ValueError ''1__0''),
    Inl (ValueError ''''),
    Inl TypeError,
    Inr (Some ''Widget'', 7, Some ''W1'', Some ''S1'')]"
    by (simp add: dict_reader_def fields_0_def normalize_row_def py_int_eval)
  have h5: "five ''product'' \<noteq> None \<and> five ''product_quantity'' = Some (Some ''five'') \<and>
            py_int ''five'' = Inl (ValueError ''five'')"
    by (simp add: five_def dict_reader_def fields_0_def py_int_eval)
  note t5 = normalize_row_malformed_or_canonical
              [where row = five and t = "''five''" and c = ?db and rows = "[]"
                 and failure = None and e = "ValueError ''five''"]
  from t5 h5 have n5: "normalize_row five = Inl (ValueError ''five'')"
    by (simp only: simp_thms)
  with t5 have p5: "process_shipping_data_0 ?db ([five], None) = (?db, Some (ValueError ''five''))"
    by (simp only: simp_thms)
  have hg: "good ''product'' = Some (Some ''Widget'') \<and>
            good ''product_quantity'' = Some (Some '' 1_000 '') \<and>
            py_int '' 1_000 '' = Inr 1000 \<and>
            good ''origin_warehouse'' = Some (Some ''W1'') \<and>
            good ''destination_store'' = Some (Some ''S1'')"
    by (simp add: good_def dict_reader_def fields_0_def py_int_eval)
  from normalize_row_malformed_or_canonical
         [where row = good and t = "'' 1_000 ''" and q = 1000 and p = "Some ''Widget''"
            and ow = "Some ''W1''" and ds = "Some ''S1''"] hg
  have ng: "normalize_row good = Inr (Some ''Widget'', 1000, Some ''W1'', Some ''S1'')"
    by (simp only: simp_thms)
  have hs: "short ''product'' \<noteq> None \<and> short ''product_quantity'' = Some None"
    by (simp add: short_def dict_reader_def fields_0_def)
  from normalize_row_malformed_or_canonical [where row = short] hs
  have ns: "normalize_row short = Inl TypeError"
    by (simp only: simp_thms)
  have hn: "nocol ''product'' \<noteq> None \<and> nocol ''product_quantity'' = None"
    by (simp add: nocol_def dict_reader_def)
  from normalize_row_malformed_or_canonical [where row = nocol] hn
  have nn: "normalize_row nocol = Inl (KeyError ''product_quantity'')"
    by (simp only: simp_thms)
  have e5: "dict_reader fields_0 [[''W1'', ''S1'', ''Widget'', ''True'', ''five'', ''D7'']] = [five]"
    by (simp add: five_def dict_reader_def)
  have en: "dict_reader [''origin_warehouse'', ''destination_store'', ''product'']
              [[''W1'', ''S1'', ''Widget'']] = [nocol]"
    by (simp add: nocol_def dict_reader_def)
  from nn have "map normalize_row (dict_reader [''origin_warehouse'', ''destination_store'', ''product'']
     [[''W1'', ''S1'', ''Widget'']]) = [Inl (KeyError ''product_quantity'')]"
    by (simp only: en list.map)
  moreover from p5 have "process_shipping_data_0 ?db
     (dict_reader fields_0 [[''W1'', ''S1'', ''Widget'', ''True'', ''five'', ''D7'']], None) =
     (?db, Some (ValueError ''five''))"
    by (simp only: e5)
  ultimately show ?thesis using all by (simp only: simp_thms)
qed

text \<open>
  A file whose last column is \<open>destination_store\<close>, and a line without that cell: the
  reads do not raise, and the tuple carries \<^verbatim>\<open>None\<close> as destination.
\<close>

theorem missing_destination_cell_accepted:
  "map normalize_row
     (dict_reader [''product'', ''product_quantity'', ''origin_warehouse'', ''destination_store'']
        [[''Widget'', ''5'', ''W1'']]) =
     [Inr (Some ''Widget'', 5, Some ''W1'', None)]"
  by (simp add: dict_reader_def normalize_row_def py_int_eval)

section \<open>The quantities of the inserted shipments\<close>

lemma get_or_create_product_cell_Inr:
  "get_or_create_product_cell c name = Inr (pid, c1) \<Longrightarrow> shipment_tbl c1 = shipment_tbl c"
proof -
  assume a: "get_or_create_product_cell c name = Inr (pid, c1)"
  then obtain n where "get_or_create_product c n = (pid, c1)"
    by (auto simp: get_or_create_product_cell_def not_null_def split: option.splits)
  with shipment_tbl_get_or_create [of c n] show ?thesis by simp
qed

lemma insert_shipment_cell_Inr:
  "insert_shipment_cell c pid q ow ds = Inr c2 \<Longrightarrow>
     fits_int64 q \<and>
     (\<exists>ow' ds'. ow = Some ow' \<and> ds = Some ds' \<and>
        shipment_tbl c2 = shipment_tbl c @ [(pid, q, ow', ds')])"
  by (auto simp: insert_shipment_cell_def not_null_def insert_shipment_def
           split: option.splits if_splits)

lemma process_shipping_data_0_written:
  "process_shipping_data_0 c (rows, failure) = (c', err) \<Longrightarrow>
     \<exists>new. shipment_tbl c' = shipment_tbl c @ new \<and>
       list_all2 (\<lambda>(product_id, quantity, worigin, wdestination) row.
                    \<exists>t. row ''product_quantity'' = Some (Some t) \<and> py_int t = Inr quantity \<and>
                        fits_int64 quantity \<and>
                        row ''origin_warehouse'' = Some (Some worigin) \<and>
                        row ''destination_store'' = Some (Some wdestination))
         new (take (length new) rows)"
proof (induction rows arbitrary: c)
  case Nil
  then have "shipment_tbl c' = shipment_tbl c @ []" by simp
  then show ?case by fastforce
next
  case (Cons row rows)
  let ?P = "\<lambda>(product_id, quantity, worigin, wdestination) row.
                    \<exists>t. row ''product_quantity'' = Some (Some t) \<and> py_int t = Inr quantity \<and>
                        fits_int64 quantity \<and>
                        row ''origin_warehouse'' = Some (Some worigin) \<and>
                        row ''destination_store'' = Some (Some wdestination)"
  have stop: ?case if "shipment_tbl c' = shipment_tbl c"
  proof -
    from that have "shipment_tbl c' = shipment_tbl c @ [] \<and>
        list_all2 ?P [] (take (length ([] :: shipment_row list)) (row # rows))"
      by simp
    then show ?thesis by blast
  qed
  show ?case
  proof (cases "normalize_row row")
    case (Inl e)
    with Cons.prems show ?thesis by (intro stop) simp
  next
    case (Inr t)
    obtain p q ow ds where t: "t = (p, q, ow, ds)" by (cases t)
    show ?thesis
    proof (cases "get_or_create_product_cell c p")
      case (Inl e)
      with Cons.prems Inr t show ?thesis by (intro stop) simp
    next
      case g: (Inr r)
      obtain pid c1 where r: "r = (pid, c1)" by (cases r)
      from g r have c1: "shipment_tbl c1 = shipment_tbl c"
        by (simp add: get_or_create_product_cell_Inr)
      show ?thesis
      proof (cases "insert_shipment_cell c1 pid q ow ds")
        case (Inl e)
        with Cons.prems Inr t g r c1 show ?thesis by (intro stop) simp
      next
        case i: (Inr c2)
        from insert_shipment_cell_Inr [OF i] c1 obtain ow' ds'
          where fit: "fits_int64 q" and ow: "ow = Some ow'" and ds: "ds = Some ds'"
            and c2: "shipment_tbl c2 = shipment_tbl c @ [(pid, q, ow', ds')]"
          by auto
        from Cons.prems Inr t g r i have "process_shipping_data_0 c2 (rows, failure) = (c', err)"
          by simp
        from Cons.IH [OF this] obtain new
          where new: "shipment_tbl c' = shipment_tbl c2 @ new"
            and rel: "list_all2 ?P new (take (length new) rows)"
          by blast
        from Inr t ow ds fit have "?P (pid, q, ow', ds') row"
          by (auto simp: normalize_row_def py_int_cell_def getitem_def
                   split: option.splits sum.splits)
        with rel have "list_all2 ?P ((pid, q, ow', ds') # new)
                         (take (length ((pid, q, ow', ds') # new)) (row # rows))"
          by simp
        moreover from new c2 have "shipment_tbl c' = shipment_tbl c @ ((pid, q, ow', ds') # new)"
          by simp
        ultimately show ?thesis by blast
      qed
    qed
  qed
qed

lemma increment_positive:
  "list_all (\<lambda>kv. 1 \<le> snd kv) d \<Longrightarrow> list_all (\<lambda>kv. 1 \<le> snd kv) (increment d p)"
  by (induction d) auto

lemma count_unit_positive:
  "list_all (\<lambda>kd. list_all (\<lambda>kv. 1 \<le> snd kv) (snd kd)) pc \<Longrightarrow>
     list_all (\<lambda>kd. list_all (\<lambda>kv. 1 \<le> snd kv) (snd kd)) (count_unit pc s p)"
  by (induction pc) (auto simp: increment_positive)

lemma count_products_cells_positive:
  "count_products_cells pc rows = Inr pc' \<Longrightarrow>
     list_all (\<lambda>kd. list_all (\<lambda>kv. 1 \<le> snd kv) (snd kd)) pc \<Longrightarrow>
     list_all (\<lambda>kd. list_all (\<lambda>kv. 1 \<le> snd kv) (snd kd)) pc'"
proof (induction rows arbitrary: pc)
  case Nil
  then show ?case by simp
next
  case (Cons row rows)
  from Cons.prems(1) obtain s p where "count_products_cells (count_unit pc s p) rows = Inr pc'"
    by (auto simp: getitem_def split: option.splits)
  from Cons.IH [OF this count_unit_positive [OF Cons.prems(2)]] show ?case .
qed

lemma insert_products_cells_written:
  "insert_products_cells c ow ds products = (c', err) \<Longrightarrow>
     list_all (\<lambda>kv. 1 \<le> snd kv) products \<Longrightarrow>
     \<exists>new. shipment_tbl c' = shipment_tbl c @ new \<and>
       (\<forall>(product_id, quantity, worigin, wdestination) \<in> set new. 1 \<le> quantity \<and> fits_int64 quantity)"
proof (induction products arbitrary: c)
  case Nil
  then have "shipment_tbl c' = shipment_tbl c @ []" by simp
  then show ?case by fastforce
next
  case (Cons kv products)
  obtain p q where kv: "kv = (p, q)" by (cases kv)
  have stop: ?case if "shipment_tbl c' = shipment_tbl c"
  proof -
    from that have "shipment_tbl c' = shipment_tbl c @ []" by simp
    then show ?thesis by fastforce
  qed
  show ?case
  proof (cases "get_or_create_product_cell c p")
    case (Inl e)
    with Cons.prems(1) kv show ?thesis by (intro stop) simp
  next
    case g: (Inr r)
    obtain pid c1 where r: "r = (pid, c1)" by (cases r)
    from g r have c1: "shipment_tbl c1 = shipment_tbl c"
      by (simp add: get_or_create_product_cell_Inr)
    show ?thesis
    proof (cases "insert_shipment_cell c1 pid q ow ds")
      case (Inl e)
      with Cons.prems(1) kv g r c1 show ?thesis by (intro stop) simp
    next
      case i: (Inr c2)
      from insert_shipment_cell_Inr [OF i] c1 obtain ow' ds'
        where fit: "fits_int64 q"
          and c2: "shipment_tbl c2 = shipment_tbl c @ [(pid, q, ow', ds')]"
        by auto
      from Cons.prems(1) kv g r i have "insert_products_cells c2 ow ds products = (c', err)"
        by simp
      from Cons.IH [OF this] Cons.prems(2) obtain new
        where new: "shipment_tbl c' = shipment_tbl c2 @ new"
          and pos: "\<forall>(product_id, quantity, worigin, wdestination) \<in> set new.
                      1 \<le> quantity \<and> fits_int64 quantity"
        by auto
      from Cons.prems(2) kv have "1 \<le> q" by simp
      with pos fit
      have "\<forall>(product_id, quantity, worigin, wdestination) \<in> set ((pid, q, ow', ds') # new).
              1 \<le> quantity \<and> fits_int64 quantity"
        by simp
      moreover from new c2 have "shipment_tbl c' = shipment_tbl c @ ((pid, q, ow', ds') # new)"
        by simp
      ultimately show ?thesis by blast
    qed
  qed
qed

lemma insert_records_cells_written:
  "insert_records_cells c info pc = (c', out, err) \<Longrightarrow>
     list_all (\<lambda>kd. list_all (\<lambda>kv. 1 \<le> snd kv) (snd kd)) pc \<Longrightarrow>
     \<exists>new. shipment_tbl c' = shipment_tbl c @ new \<and>
       (\<forall>(product_id, quantity, worigin, wdestination) \<in> set new. 1 \<le> quantity \<and> fits_int64 quantity)"
proof (induction pc arbitrary: c out)
  case Nil
  then have "shipment_tbl c' = shipment_tbl c @ []" by simp
  then show ?case by fastforce
next
  case (Cons kd pc)
  obtain s products where kd: "kd = (s, products)" by (cases kd)
  from Cons.prems(2) kd have pos: "list_all (\<lambda>kv. 1 \<le> snd kv) products"
    and rest: "list_all (\<lambda>kd. list_all (\<lambda>kv. 1 \<le> snd kv) (snd kd)) pc"
    by simp_all
  show ?case
  proof (cases "info s")
    case None
    obtain c1 out1 err1 where r: "insert_records_cells c info pc = (c1, out1, err1)"
      by (cases "insert_records_cells c info pc")
    with Cons.prems(1) kd None have "c1 = c'" "err1 = err" by simp_all
    with r have "insert_records_cells c info pc = (c', out1, err)" by simp
    from Cons.IH [OF this rest] show ?thesis .
  next
    case (Some loc)
    obtain ow ds where loc: "loc = (ow, ds)" by (cases loc)
    obtain c1 err1 where p: "insert_products_cells c ow ds products = (c1, err1)"
      by (cases "insert_products_cells c ow ds products")
    from insert_products_cells_written [OF p pos] obtain new1
      where new1: "shipment_tbl c1 = shipment_tbl c @ new1"
        and pos1: "\<forall>(product_id, quantity, worigin, wdestination) \<in> set new1.
                     1 \<le> quantity \<and> fits_int64 quantity"
      by blast
    show ?thesis
    proof (cases err1)
      case (Some e)
      with Cons.prems(1) kd \<open>info s = Some loc\<close> loc p have "c' = c1" by simp
      with new1 pos1 show ?thesis by blast
    next
      case None
      with Cons.prems(1) kd \<open>info s = Some loc\<close> loc p
      have "insert_records_cells c1 info pc = (c', out, err)" by simp
      from Cons.IH [OF this rest] obtain new2
        where new2: "shipment_tbl c' = shipment_tbl c1 @ new2"
          and pos2: "\<forall>(product_id, quantity, worigin, wdestination) \<in> set new2.
                       1 \<le> quantity \<and> fits_int64 quantity"
        by blast
      from pos1 pos2
      have "\<forall>(product_id, quantity, worigin, wdestination) \<in> set (new1 @ new2).
              1 \<le> quantity \<and> fits_int64 quantity"
        by auto
      moreover from new1 new2 have "shipment_tbl c' = shipment_tbl c @ (new1 @ new2)" by simp
      ultimately show ?thesis by blast
    qed
  qed
qed

text \<open>
  C7, as the code has it. The shipment rows that \<^verbatim>\<open>process_shipping_data_1_and_2\<close>
  appends, whether it returns or raises, all have a quantity of at least 1. The shipment rows that
  \<^verbatim>\<open>process_shipping_data_0\<close> appends correspond, in order, to the rows of the file
  that it got through, and each carries as quantity the integer that \<^verbatim>\<open>int\<close> reads
  in the \<open>product_quantity\<close> of its row, and as origin and destination the texts of
  \<open>origin_warehouse\<close> and \<open>destination_store\<close>. That integer fits in 64 bits, or the
  row would not have been written; no test of its sign stands between the reading and
  the insertion.
\<close>

theorem shipment_quantities:
  "(process_shipping_data_1_and_2_cells c source_1 source_2 = (c', out, err) \<longrightarrow>
      (\<exists>new. shipment_tbl c' = shipment_tbl c @ new \<and>
             (\<forall>(product_id, quantity, worigin, wdestination) \<in> set new.
                1 \<le> quantity \<and> fits_int64 quantity))) \<and>
   (process_shipping_data_0 c (rows, failure) = (c'', err') \<longrightarrow>
      (\<exists>new. shipment_tbl c'' = shipment_tbl c @ new \<and>
             list_all2 (\<lambda>(product_id, quantity, worigin, wdestination) row.
                          \<exists>t. row ''product_quantity'' = Some (Some t) \<and>
                              py_int t = Inr quantity \<and> fits_int64 quantity \<and>
                              row ''origin_warehouse'' = Some (Some worigin) \<and>
                              row ''destination_store'' = Some (Some wdestination))
               new (take (length new) rows)))"
proof (intro conjI impI)
  assume p: "process_shipping_data_1_and_2_cells c source_1 source_2 = (c', out, err)"
  have stop: "\<exists>new. shipment_tbl c' = shipment_tbl c @ new \<and>
             (\<forall>(product_id, quantity, worigin, wdestination) \<in> set new.
                1 \<le> quantity \<and> fits_int64 quantity)" if "c' = c"
  proof -
    from that have "shipment_tbl c' = shipment_tbl c @ []" by simp
    then show ?thesis by fastforce
  qed
  show "\<exists>new. shipment_tbl c' = shipment_tbl c @ new \<and>
             (\<forall>(product_id, quantity, worigin, wdestination) \<in> set new.
                1 \<le> quantity \<and> fits_int64 quantity)"
  proof (cases "load_shipment_info_cells Map.empty (fst source_2)")
    case (Inl e)
    with p show ?thesis by (intro stop) (simp add: process_shipping_data_1_and_2_cells_def)
  next
    case info: (Inr info)
    show ?thesis
    proof (cases "count_products_cells [] (fst source_1)")
      case (Inl e)
      with p info show ?thesis
        by (intro stop)
           (simp add: process_shipping_data_1_and_2_cells_def split: option.splits)
    next
      case (Inr pc)
      from count_products_cells_positive [OF Inr]
      have pos: "list_all (\<lambda>kd. list_all (\<lambda>kv. 1 \<le> snd kv) (snd kd)) pc" by simp
      show ?thesis
      proof (cases "snd source_2 = None \<and> snd source_1 = None")
        case True
        with p info Inr have "insert_records_cells c info pc = (c', out, err)"
          by (simp add: process_shipping_data_1_and_2_cells_def)
        from insert_records_cells_written [OF this pos] show ?thesis .
      next
        case False
        with p info Inr show ?thesis
          by (intro stop)
             (auto simp: process_shipping_data_1_and_2_cells_def split: option.splits)
      qed
    qed
  qed
next
  assume "process_shipping_data_0 c (rows, failure) = (c'', err')"
  then show "\<exists>new. shipment_tbl c'' = shipment_tbl c @ new \<and>
             list_all2 (\<lambda>(product_id, quantity, worigin, wdestination) row.
                          \<exists>t. row ''product_quantity'' = Some (Some t) \<and>
                              py_int t = Inr quantity \<and> fits_int64 quantity \<and>
                              row ''origin_warehouse'' = Some (Some worigin) \<and>
                              row ''destination_store'' = Some (Some wdestination))
               new (take (length new) rows)"
    by (rule process_shipping_data_0_written)
qed

lemmas store_eval = get_or_create_product_cell_def insert_shipment_cell_def not_null_def
  fits_int64_def get_or_create_product_def lastrowid_def insert_shipment_def

theorem shipment_quantities_witness:
  "process_shipping_data_1_and_2_cells \<lparr>product_tbl = [], shipment_tbl = []\<rparr>
     (dict_reader fields_1 [[''A1'', ''Bolt''], [''A1'', ''Bolt'']], None)
     (dict_reader fields_2 [[''A1'', ''W2'', ''S2'']], None) =
     (\<lparr>product_tbl = [(1, ''Bolt'')], shipment_tbl = [(1, 2, ''W2'', ''S2'')]\<rparr>, [], None) \<and>
   (\<exists>new. [(1::int, 2::int, ''W2'', ''S2'')] = new \<and>
      (\<forall>(product_id, quantity, worigin, wdestination) \<in> set new.
         (1::int) \<le> quantity \<and> fits_int64 quantity)) \<and>
   process_shipping_data_0 \<lparr>product_tbl = [], shipment_tbl = []\<rparr>
     (dict_reader fields_0
        [[''W1'', ''S1'', ''Widget'', ''True'', ''-5'', ''D7''],
         [''W1'', ''S1'', ''Gadget'', ''True'', ''9223372036854775808'', ''D7'']], None) =
     (\<lparr>product_tbl = [(1, ''Widget''), (2, ''Gadget'')],
       shipment_tbl = [(1, - 5, ''W1'', ''S1'')]\<rparr>, Some OverflowError) \<and>
   (\<exists>new. [(1::int, - 5 :: int, ''W1'', ''S1'')] = new \<and>
      list_all2 (\<lambda>(product_id, quantity, worigin, wdestination) row.
                   \<exists>t. row ''product_quantity'' = Some (Some t) \<and>
                       py_int t = Inr quantity \<and> fits_int64 quantity \<and>
                       row ''origin_warehouse'' = Some (Some worigin) \<and>
                       row ''destination_store'' = Some (Some wdestination))
        new (take (length new)
               (dict_reader fields_0
                  [[''W1'', ''S1'', ''Widget'', ''True'', ''-5'', ''D7''],
                   [''W1'', ''S1'', ''Gadget'', ''True'', ''9223372036854775808'', ''D7'']])))"
proof -
  let ?db = "\<lparr>product_tbl = [], shipment_tbl = []\<rparr>"
  let ?db1 = "\<lparr>product_tbl = [(1, ''Bolt'')], shipment_tbl = [(1, 2, ''W2'', ''S2'')]\<rparr>"
  let ?db2 = "\<lparr>product_tbl = [(1, ''Widget''), (2, ''Gadget'')],
               shipment_tbl = [(1, - 5, ''W1'', ''S1'')]\<rparr>"
  let ?facts = "dict_reader fields_1 [[''A1'', ''Bolt''], [''A1'', ''Bolt'']]"
  let ?locs = "dict_reader fields_2 [[''A1'', ''W2'', ''S2'']]"
  let ?rows = "dict_reader fields_0
        [[''W1'', ''S1'', ''Widget'', ''True'', ''-5'', ''D7''],
         [''W1'', ''S1'', ''Gadget'', ''True'', ''9223372036854775808'', ''D7'']]"
  have a: "process_shipping_data_1_and_2_cells ?db (?facts, None) (?locs, None) = (?db1, [], None)"
    by (simp add: process_shipping_data_1_and_2_cells_def dict_reader_def fields_1_def
          fields_2_def store_eval)
  have b: "process_shipping_data_0 ?db (?rows, None) = (?db2, Some OverflowError)"
    by (simp add: dict_reader_def fields_0_def normalize_row_def py_int_eval store_eval)
  note t = shipment_quantities [of ?db "(?facts, None)" "(?locs, None)" ?db1 "[]" None ?rows None
                                  ?db2 "Some OverflowError"]
  from t [THEN conjunct1, rule_format, OF a]
  have j: "\<exists>new. [(1::int, 2::int, ''W2'', ''S2'')] = new \<and>
      (\<forall>(product_id, quantity, worigin, wdestination) \<in> set new.
         (1::int) \<le> quantity \<and> fits_int64 quantity)"
    by simp
  from t [THEN conjunct2, rule_format, OF b]
  have s: "\<exists>new. [(1::int, - 5 :: int, ''W1'', ''S1'')] = new \<and>
      list_all2 (\<lambda>(product_id, quantity, worigin, wdestination) row.
                   \<exists>t. row ''product_quantity'' = Some (Some t) \<and>
                       py_int t = Inr quantity \<and> fits_int64 quantity \<and>
                       row ''origin_warehouse'' = Some (Some worigin) \<and>
                       row ''destination_store'' = Some (Some wdestination))
        new (take (length new) ?rows)"
    by (simp only: database.simps append_Nil)
  from a j b s show ?thesis by (simp only: simp_thms)
qed

text \<open>
  A line of the self-contained file with the quantity \<open>-5\<close>: the run succeeds and
  commits a shipment row of quantity \<open>-5\<close>.
\<close>

theorem negative_quantity_inserted:
  "main \<lparr>product_tbl = [], shipment_tbl = []\<rparr>
     (dict_reader fields_0 [[''W1'', ''S1'', ''Widget'', ''True'', ''-5'', ''D7'']], None)
     ([], None) ([], None) =
     (\<lparr>product_tbl = [(1, ''Widget'')], shipment_tbl = [(1, - 5, ''W1'', ''S1'')]\<rparr>,
      [Processing_0, Processing_1_and_2, Populated, Summary 1 1], None) \<and>
   \<not> (0::int) < - 5"
  by (simp add: main_def main_try_def connect_def commit_def close_def
        process_shipping_data_1_and_2_cells_def dict_reader_def fields_0_def
        normalize_row_def py_int_eval store_eval)

section \<open>The rows of a file\<close>

lemma dict_reader_keys:
  assumes "row \<in> set (dict_reader header lines)"
  shows "row k = None \<longleftrightarrow> k \<notin> set header"
proof -
  from assms obtain cells where
    row: "row = map_of (rev (zip header
                   (map Some cells @ replicate (length header - length cells) None)))"
    by (auto simp: dict_reader_def)
  let ?ys = "map Some cells @ replicate (length header - length cells) None"
  have "length header \<le> length ?ys" by simp
  then have "map fst (zip header ?ys) = header"
    by (simp add: map_fst_zip_take min_def)
  then have "fst ` set (rev (zip header ?ys)) = set header"
    by (metis set_map set_rev)
  then show ?thesis
    by (simp add: row map_of_eq_None_iff)
qed

lemma dict_reader_nonempty:
  "\<exists>line \<in> set lines. line \<noteq> [] \<Longrightarrow> \<exists>r rest. dict_reader header lines = r # rest"
proof -
  assume "\<exists>line \<in> set lines. line \<noteq> []"
  then have "filter (\<lambda>cells. cells \<noteq> []) lines \<noteq> []"
    by (simp add: filter_empty_conv)
  then have "dict_reader header lines \<noteq> []"
    by (simp add: dict_reader_def)
  then show ?thesis by (cases "dict_reader header lines") auto
qed

section \<open>Rows that lack a field\<close>

lemma load_shipment_info_cells_KeyError:
  "find (\<lambda>k. r k = None) fields_2 = Some k \<Longrightarrow>
     load_shipment_info_cells m (r # rest) = Inl (KeyError k)"
  by (auto simp: fields_2_def getitem_def split: if_splits option.splits)

lemma count_products_cells_KeyError:
  "find (\<lambda>k. r k = None) fields_1 = Some k \<Longrightarrow>
     count_products_cells pc (r # rest) = Inl (KeyError k)"
  by (auto simp: fields_1_def getitem_def split: if_splits option.splits)

lemma load_shipment_info_cells_succeeds:
  "\<forall>row \<in> set rows. \<forall>k \<in> set fields_2. row k \<noteq> None \<Longrightarrow>
     \<exists>info. load_shipment_info_cells m rows = Inr info"
  by (induction rows arbitrary: m) (auto simp: fields_2_def getitem_def)

lemma count_products_cells_succeeds:
  "\<forall>row \<in> set rows. \<forall>k \<in> set fields_1. row k \<noteq> None \<Longrightarrow>
     \<exists>pc'. count_products_cells pc rows = Inr pc'"
  by (induction rows arbitrary: pc) (auto simp: fields_1_def getitem_def)

text \<open>
  C8, as the code has it. When the header of the location file lacks
  \<open>shipment_identifier\<close>, \<open>origin_warehouse\<close> or \<open>destination_store\<close> and the file has a
  line, the function raises \<^verbatim>\<open>KeyError\<close> for the first of these three that the header
  lacks. When the header of the location file has the three, the file is read to its
  end, and the header of the fact file lacks \<open>shipment_identifier\<close> or \<open>product\<close> and
  the fact file has a line, the function raises \<^verbatim>\<open>KeyError\<close> for the first of these
  two that the header lacks. In both cases nothing has been written or printed.
\<close>

theorem malformed_joined_row_raises:
  "((\<exists>line \<in> set lines_2. line \<noteq> []) \<and> find (\<lambda>k. k \<notin> set header_2) fields_2 = Some k \<longrightarrow>
      process_shipping_data_1_and_2_cells c source_1 (dict_reader header_2 lines_2, failure_2) =
        (c, [], Some (KeyError k))) \<and>
   (set fields_2 \<subseteq> set header_2 \<and> (\<exists>line \<in> set lines_1. line \<noteq> []) \<and>
    find (\<lambda>k. k \<notin> set header_1) fields_1 = Some k \<longrightarrow>
      process_shipping_data_1_and_2_cells c (dict_reader header_1 lines_1, failure_1)
        (dict_reader header_2 lines_2, None) = (c, [], Some (KeyError k)))"
proof (intro conjI impI)
  assume a: "(\<exists>line \<in> set lines_2. line \<noteq> []) \<and> find (\<lambda>k. k \<notin> set header_2) fields_2 = Some k"
  then obtain r rest where rows: "dict_reader header_2 lines_2 = r # rest"
    using dict_reader_nonempty by blast
  then have "r \<in> set (dict_reader header_2 lines_2)" by simp
  then have "(\<lambda>k. r k = None) = (\<lambda>k. k \<notin> set header_2)"
    by (simp add: dict_reader_keys fun_eq_iff)
  with a have "find (\<lambda>k. r k = None) fields_2 = Some k" by simp
  from load_shipment_info_cells_KeyError [OF this]
  show "process_shipping_data_1_and_2_cells c source_1 (dict_reader header_2 lines_2, failure_2) =
        (c, [], Some (KeyError k))"
    by (simp add: process_shipping_data_1_and_2_cells_def rows)
next
  assume a: "set fields_2 \<subseteq> set header_2 \<and> (\<exists>line \<in> set lines_1. line \<noteq> []) \<and>
    find (\<lambda>k. k \<notin> set header_1) fields_1 = Some k"
  have "\<forall>row \<in> set (dict_reader header_2 lines_2). \<forall>k \<in> set fields_2. row k \<noteq> None"
    using a dict_reader_keys [of _ header_2 lines_2] by blast
  from load_shipment_info_cells_succeeds [OF this]
  obtain info where info: "load_shipment_info_cells Map.empty (dict_reader header_2 lines_2) = Inr info"
    by blast
  from a obtain r rest where rows: "dict_reader header_1 lines_1 = r # rest"
    using dict_reader_nonempty by blast
  then have "r \<in> set (dict_reader header_1 lines_1)" by simp
  then have "(\<lambda>k. r k = None) = (\<lambda>k. k \<notin> set header_1)"
    by (simp add: dict_reader_keys fun_eq_iff)
  with a have "find (\<lambda>k. r k = None) fields_1 = Some k" by simp
  from count_products_cells_KeyError [OF this] info
  show "process_shipping_data_1_and_2_cells c (dict_reader header_1 lines_1, failure_1)
        (dict_reader header_2 lines_2, None) = (c, [], Some (KeyError k))"
    by (simp add: process_shipping_data_1_and_2_cells_def rows)
qed

theorem malformed_joined_row_raises_witness:
  "process_shipping_data_1_and_2_cells \<lparr>product_tbl = [], shipment_tbl = []\<rparr>
     (dict_reader fields_1 [[''A1'', ''Bolt'']], None)
     (dict_reader [''shipment_identifier'', ''origin_warehouse''] [[''A1'', ''W2'']], None) =
     (\<lparr>product_tbl = [], shipment_tbl = []\<rparr>, [], Some (KeyError ''destination_store'')) \<and>
   process_shipping_data_1_and_2_cells \<lparr>product_tbl = [], shipment_tbl = []\<rparr>
     (dict_reader [''shipment_identifier'', ''on_time''] [[''A1'', ''True'']], None)
     (dict_reader fields_2 [[''A1'', ''W2'', ''S2'']], None) =
     (\<lparr>product_tbl = [], shipment_tbl = []\<rparr>, [], Some (KeyError ''product''))"
proof -
  let ?db = "\<lparr>product_tbl = [], shipment_tbl = []\<rparr>"
  have a: "(\<exists>line \<in> set [[''A1'', ''W2'']]. line \<noteq> []) \<and>
           find (\<lambda>k. k \<notin> set [''shipment_identifier'', ''origin_warehouse'']) fields_2 =
             Some ''destination_store''"
    by (simp add: fields_2_def)
  have b: "set fields_2 \<subseteq> set fields_2 \<and> (\<exists>line \<in> set [[''A1'', ''True'']]. line \<noteq> []) \<and>
           find (\<lambda>k. k \<notin> set [''shipment_identifier'', ''on_time'']) fields_1 = Some ''product''"
    by (simp add: fields_1_def)
  from malformed_joined_row_raises
         [of "[[''A1'', ''W2'']]" "[''shipment_identifier'', ''origin_warehouse'']"
             "''destination_store''" ?db "(dict_reader fields_1 [[''A1'', ''Bolt'']], None)" None,
          THEN conjunct1, rule_format, OF a]
  have x: "process_shipping_data_1_and_2_cells ?db (dict_reader fields_1 [[''A1'', ''Bolt'']], None)
     (dict_reader [''shipment_identifier'', ''origin_warehouse''] [[''A1'', ''W2'']], None) =
     (?db, [], Some (KeyError ''destination_store''))" .
  from malformed_joined_row_raises
         [of "[[''A1'', ''W2'', ''S2'']]" fields_2 "''product''" ?db _ _ "[[''A1'', ''True'']]"
             "[''shipment_identifier'', ''on_time'']" None,
          THEN conjunct2, rule_format, OF b]
  have y: "process_shipping_data_1_and_2_cells ?db
     (dict_reader [''shipment_identifier'', ''on_time''] [[''A1'', ''True'']], None)
     (dict_reader fields_2 [[''A1'', ''W2'', ''S2'']], None) =
     (?db, [], Some (KeyError ''product''))" .
  from x y show ?thesis by (simp only: simp_thms)
qed

text \<open>
  A line of the fact file without the cell of \<open>product\<close>, for a shipment that has no
  location: the reader gives \<^verbatim>\<open>None\<close> for the product, the function prints the
  warning and returns, and the run succeeds.
\<close>

theorem short_fact_line_accepted:
  "hd (dict_reader fields_1 [[''A1'']]) ''product'' = Some None \<and>
   process_shipping_data_1_and_2_cells \<lparr>product_tbl = [], shipment_tbl = []\<rparr>
     (dict_reader fields_1 [[''A1'']], None)
     (dict_reader fields_2 [[''B7'', ''W3'', ''S3'']], None) =
     (\<lparr>product_tbl = [], shipment_tbl = []\<rparr>, [Warning ''A1''], None) \<and>
   main \<lparr>product_tbl = [], shipment_tbl = []\<rparr> ([], None)
     (dict_reader fields_1 [[''A1'']], None)
     (dict_reader fields_2 [[''B7'', ''W3'', ''S3'']], None) =
     (\<lparr>product_tbl = [], shipment_tbl = []\<rparr>,
      [Processing_0, Processing_1_and_2, Warning ''A1'', Populated, Summary 0 0], None)"
  by (simp add: main_def main_try_def connect_def commit_def close_def
        process_shipping_data_1_and_2_cells_def dict_reader_def fields_1_def fields_2_def
        py_str_def)

section \<open>Properties of the run\<close>

lemma main_try_committed:
  "main_try conn source_0 source_1 source_2 = (conn', out, Some e) \<Longrightarrow>
     committed conn' = committed conn"
  by (auto simp: main_try_def Let_def split: prod.splits option.splits)

text \<open>
  C5. When an exception leaves the \<^verbatim>\<open>try\<close> block of \<^verbatim>\<open>main\<close>, whatever it is and
  whatever the block had written through the cursor by then, the database file holds
  after the run exactly what it held before it, and \<^verbatim>\<open>main\<close> raises that same
  exception after printing it. This is so when \<^verbatim>\<open>process_shipping_data_0\<close> raises
  and when \<^verbatim>\<open>process_shipping_data_1_and_2\<close> raises after
  \<^verbatim>\<open>process_shipping_data_0\<close> has returned; and whenever \<^verbatim>\<open>main\<close> raises, the
  database file is unchanged.
\<close>

theorem main_rolls_back:
  "(main_try (connect file) source_0 source_1 source_2 = (conn, out, Some e) \<longrightarrow>
      main file source_0 source_1 source_2 = (file, out @ [Error_message e], Some e)) \<and>
   (process_shipping_data_0 file source_0 = (c0, Some e) \<longrightarrow>
      main file source_0 source_1 source_2 = (file, [Processing_0, Error_message e], Some e)) \<and>
   (process_shipping_data_0 file source_0 = (c0, None) \<and>
    process_shipping_data_1_and_2_cells c0 source_1 source_2 = (c1, out1, Some e) \<longrightarrow>
      main file source_0 source_1 source_2 =
        (file, [Processing_0, Processing_1_and_2] @ out1 @ [Error_message e], Some e)) \<and>
   (main file source_0 source_1 source_2 = (file', out', Some e') \<longrightarrow> file' = file)"
proof (intro conjI impI)
  assume t: "main_try (connect file) source_0 source_1 source_2 = (conn, out, Some e)"
  from main_try_committed [OF t] have "committed conn = file"
    by (simp add: connect_def)
  with t show "main file source_0 source_1 source_2 = (file, out @ [Error_message e], Some e)"
    by (simp add: main_def rollback_def close_def)
next
  assume p: "process_shipping_data_0 file source_0 = (c0, Some e)"
  then have t: "main_try (connect file) source_0 source_1 source_2 =
      ((connect file)\<lparr>pending := c0\<rparr>, [Processing_0], Some e)"
    by (simp add: main_try_def connect_def)
  then show "main file source_0 source_1 source_2 =
      (file, [Processing_0, Error_message e], Some e)"
    by (simp add: main_def rollback_def close_def connect_def)
next
  assume p: "process_shipping_data_0 file source_0 = (c0, None) \<and>
    process_shipping_data_1_and_2_cells c0 source_1 source_2 = (c1, out1, Some e)"
  then have t: "main_try (connect file) source_0 source_1 source_2 =
      ((connect file)\<lparr>pending := c1\<rparr>, [Processing_0, Processing_1_and_2] @ out1, Some e)"
    by (simp add: main_try_def connect_def)
  then show "main file source_0 source_1 source_2 =
        (file, [Processing_0, Processing_1_and_2] @ out1 @ [Error_message e], Some e)"
    by (simp add: main_def rollback_def close_def connect_def)
next
  assume m: "main file source_0 source_1 source_2 = (file', out', Some e')"
  obtain conn out err
    where t: "main_try (connect file) source_0 source_1 source_2 = (conn, out, err)"
    by (cases "main_try (connect file) source_0 source_1 source_2") auto
  show "file' = file"
  proof (cases err)
    case None
    with m t show ?thesis by (simp add: main_def)
  next
    case (Some e)
    with t main_try_committed [of "connect file" source_0 source_1 source_2 conn out e]
    have "committed conn = file" by (simp add: connect_def)
    with m t Some show ?thesis by (simp add: main_def rollback_def close_def)
  qed
qed

text \<open>
  Four runs on an empty store that raise after the cursor has written: a quantity of
  \<open>2 ^ 63\<close> in the second line of the self-contained file; a quantity that begins with
  the separator 28; a fact line without product, for a shipment that has a location,
  after a complete one; and a fact file that cannot be opened, after the self-contained
  file has been processed.
\<close>

theorem main_rolls_back_witness:
  "process_shipping_data_0 \<lparr>product_tbl = [], shipment_tbl = []\<rparr>
     (dict_reader fields_0
        [[''W1'', ''S1'', ''Widget'', ''True'', ''5'', ''D7''],
         [''W1'', ''S1'', ''Gadget'', ''True'', ''9223372036854775808'', ''D7'']], None) =
     (\<lparr>product_tbl = [(1, ''Widget''), (2, ''Gadget'')],
       shipment_tbl = [(1, 5, ''W1'', ''S1'')]\<rparr>, Some OverflowError) \<and>
   main \<lparr>product_tbl = [], shipment_tbl = []\<rparr>
     (dict_reader fields_0
        [[''W1'', ''S1'', ''Widget'', ''True'', ''5'', ''D7''],
         [''W1'', ''S1'', ''Gadget'', ''True'', ''9223372036854775808'', ''D7'']], None)
     (dict_reader fields_1 [[''A1'', ''Bolt'']], None)
     (dict_reader fields_2 [[''A1'', ''W2'', ''S2'']], None) =
     (\<lparr>product_tbl = [], shipment_tbl = []\<rparr>,
      [Processing_0, Error_message OverflowError], Some OverflowError) \<and>
   main \<lparr>product_tbl = [], shipment_tbl = []\<rparr>
     (dict_reader fields_0
        [[''W1'', ''S1'', ''Widget'', ''True'', [CHR 0x1C, CHR ''7''], ''D7'']], None)
     ([], None) ([], None) =
     (\<lparr>product_tbl = [], shipment_tbl = []\<rparr>,
      [Processing_0, Error_message (ValueError [CHR 0x1C, CHR ''7''])],
      Some (ValueError [CHR 0x1C, CHR ''7''])) \<and>
   process_shipping_data_1_and_2_cells
     \<lparr>product_tbl = [(1, ''Widget'')], shipment_tbl = [(1, 5, ''W1'', ''S1'')]\<rparr>
     (dict_reader fields_1 [[''A1'', ''Bolt''], [''A1'']], None)
     (dict_reader fields_2 [[''A1'', ''W2'', ''S2'']], None) =
     (\<lparr>product_tbl = [(1, ''Widget''), (2, ''Bolt'')],
       shipment_tbl = [(1, 5, ''W1'', ''S1''), (2, 1, ''W2'', ''S2'')]\<rparr>,
      [], Some IntegrityError) \<and>
   main \<lparr>product_tbl = [], shipment_tbl = []\<rparr>
     (dict_reader fields_0 [[''W1'', ''S1'', ''Widget'', ''True'', ''5'', ''D7'']], None)
     (dict_reader fields_1 [[''A1'', ''Bolt''], [''A1'']], None)
     (dict_reader fields_2 [[''A1'', ''W2'', ''S2'']], None) =
     (\<lparr>product_tbl = [], shipment_tbl = []\<rparr>,
      [Processing_0, Processing_1_and_2, Error_message IntegrityError], Some IntegrityError) \<and>
   main \<lparr>product_tbl = [], shipment_tbl = []\<rparr>
     (dict_reader fields_0 [[''W1'', ''S1'', ''Widget'', ''True'', ''5'', ''D7'']], None)
     ([], Some FileNotFoundError)
     (dict_reader fields_2 [[''A1'', ''W2'', ''S2'']], None) =
     (\<lparr>product_tbl = [], shipment_tbl = []\<rparr>,
      [Processing_0, Processing_1_and_2, Error_message FileNotFoundError],
      Some FileNotFoundError)"
proof -
  let ?db = "\<lparr>product_tbl = [], shipment_tbl = []\<rparr>"
  let ?db1 = "\<lparr>product_tbl = [(1, ''Widget'')], shipment_tbl = [(1, 5, ''W1'', ''S1'')]\<rparr>"
  let ?over = "(dict_reader fields_0
        [[''W1'', ''S1'', ''Widget'', ''True'', ''5'', ''D7''],
         [''W1'', ''S1'', ''Gadget'', ''True'', ''9223372036854775808'', ''D7'']], None :: error option)"
  let ?sep = "(dict_reader fields_0
        [[''W1'', ''S1'', ''Widget'', ''True'', [CHR 0x1C, CHR ''7''], ''D7'']], None :: error option)"
  let ?good = "(dict_reader fields_0 [[''W1'', ''S1'', ''Widget'', ''True'', ''5'', ''D7'']],
                None :: error option)"
  let ?facts = "(dict_reader fields_1 [[''A1'', ''Bolt''], [''A1'']], None :: error option)"
  let ?fact = "(dict_reader fields_1 [[''A1'', ''Bolt'']], None :: error option)"
  let ?locs = "(dict_reader fields_2 [[''A1'', ''W2'', ''S2'']], None :: error option)"
  let ?none = "([] :: csv_row list, None :: error option)"
  let ?missing = "([] :: csv_row list, Some FileNotFoundError)"
  have p: "process_shipping_data_0 ?db ?over =
     (\<lparr>product_tbl = [(1, ''Widget''), (2, ''Gadget'')],
       shipment_tbl = [(1, 5, ''W1'', ''S1'')]\<rparr>, Some OverflowError)"
    by (simp add: dict_reader_def fields_0_def normalize_row_def py_int_eval store_eval)
  have s: "process_shipping_data_0 ?db ?sep = (?db, Some (ValueError [CHR 0x1C, CHR ''7'']))"
    by (simp add: dict_reader_def fields_0_def normalize_row_def py_int_eval store_eval)
  have g: "process_shipping_data_0 ?db ?good = (?db1, None)"
    by (simp add: dict_reader_def fields_0_def normalize_row_def py_int_eval store_eval)
  have j: "process_shipping_data_1_and_2_cells ?db1 ?facts ?locs =
     (\<lparr>product_tbl = [(1, ''Widget''), (2, ''Bolt'')],
       shipment_tbl = [(1, 5, ''W1'', ''S1''), (2, 1, ''W2'', ''S2'')]\<rparr>,
      [], Some IntegrityError)"
    by (simp add: process_shipping_data_1_and_2_cells_def dict_reader_def fields_1_def
          fields_2_def store_eval)
  have f: "process_shipping_data_1_and_2_cells ?db1 ?missing ?locs =
     (?db1, [], Some FileNotFoundError)"
    by (simp add: process_shipping_data_1_and_2_cells_def dict_reader_def fields_2_def)
  from main_rolls_back
         [of ?db ?over ?fact ?locs, THEN conjunct2, THEN conjunct1, rule_format, OF p]
  have m1: "main ?db ?over ?fact ?locs =
     (?db, [Processing_0, Error_message OverflowError], Some OverflowError)" .
  from main_rolls_back
         [of ?db ?sep ?none ?none, THEN conjunct2, THEN conjunct1, rule_format, OF s]
  have m2: "main ?db ?sep ?none ?none =
     (?db, [Processing_0, Error_message (ValueError [CHR 0x1C, CHR ''7''])],
      Some (ValueError [CHR 0x1C, CHR ''7'']))" .
  from main_rolls_back
         [of ?db ?good ?facts ?locs,
          THEN conjunct2, THEN conjunct2, THEN conjunct1, rule_format, OF conjI [OF g j]]
  have m3: "main ?db ?good ?facts ?locs =
     (?db, [Processing_0, Processing_1_and_2, Error_message IntegrityError], Some IntegrityError)"
    by simp
  from main_rolls_back
         [of ?db ?good ?missing ?locs,
          THEN conjunct2, THEN conjunct2, THEN conjunct1, rule_format, OF conjI [OF g f]]
  have m4: "main ?db ?good ?missing ?locs =
     (?db, [Processing_0, Processing_1_and_2, Error_message FileNotFoundError],
      Some FileNotFoundError)"
    by simp
  from p m1 m2 j m3 m4 show ?thesis by (simp only: simp_thms)
qed

section \<open>Complete lines\<close>

lemma getitem_cells_of:
  "getitem (cells_of row) key = (case getitem row key of Inl e \<Rightarrow> Inl e | Inr v \<Rightarrow> Inr (Some v))"
  by (simp add: getitem_def cells_of_def split: option.splits)

lemma cells_of_info_upd:
  "cells_of_info (m(s \<mapsto> \<lparr>origin = ow, destination = ds\<rparr>)) =
     (cells_of_info m)(Some s \<mapsto> (Some ow, Some ds))"
  by (auto simp: cells_of_info_def fun_eq_iff split: option.splits)

lemma load_shipment_info_cells_of:
  "load_shipment_info_cells (cells_of_info m) (map cells_of rows) =
     (case load_shipment_info m rows of Inl e \<Rightarrow> Inl e | Inr info \<Rightarrow> Inr (cells_of_info info))"
proof (induction rows arbitrary: m)
  case Nil
  then show ?case by simp
next
  case (Cons row rows)
  show ?case
  proof (cases "row ''shipment_identifier''")
    case None
    then show ?thesis by (simp add: getitem_cells_of)
  next
    case s: (Some s)
    show ?thesis
    proof (cases "row ''origin_warehouse''")
      case None
      with s show ?thesis by (simp add: getitem_cells_of)
    next
      case ow: (Some ow)
      show ?thesis
      proof (cases "row ''destination_store''")
        case None
        with s ow show ?thesis by (simp add: getitem_cells_of)
      next
        case (Some ds)
        have step: "load_shipment_info_cells (cells_of_info m) (map cells_of (row # rows)) =
            load_shipment_info_cells ((cells_of_info m)(Some s \<mapsto> (Some ow, Some ds)))
              (map cells_of rows)"
          using s ow Some by (simp add: getitem_cells_of)
        have step1: "load_shipment_info m (row # rows) =
            load_shipment_info (m(s \<mapsto> \<lparr>origin = ow, destination = ds\<rparr>)) rows"
          using s ow Some by simp
        show ?thesis
          unfolding step step1 cells_of_info_upd [symmetric] by (rule Cons.IH)
      qed
    qed
  qed
qed

lemma increment_cells_of:
  "increment (cells_of_dict d) (Some p) = cells_of_dict (increment d p)"
  by (induction d) (auto simp: cells_of_dict_def)

lemma count_unit_cells_of:
  "count_unit (cells_of_counts pc) (Some s) (Some p) = cells_of_counts (count_unit pc s p)"
proof (induction pc)
  case Nil
  have "increment [] (Some p) = cells_of_dict (increment [] p)"
    using increment_cells_of [of "[]" p] by (simp add: cells_of_dict_def)
  then show ?case by (simp add: cells_of_counts_def)
next
  case (Cons kd pc)
  then show ?case
    by (cases kd) (simp add: cells_of_counts_def increment_cells_of)
qed

lemma count_products_cells_of:
  "count_products_cells (cells_of_counts pc) (map cells_of rows) =
     (case count_products pc rows of Inl e \<Rightarrow> Inl e | Inr pc' \<Rightarrow> Inr (cells_of_counts pc'))"
proof (induction rows arbitrary: pc)
  case Nil
  then show ?case by simp
next
  case (Cons row rows)
  show ?case
    using Cons.IH
    by (simp add: getitem_cells_of count_unit_cells_of split: sum.splits)
qed

lemma insert_products_cells_of:
  "list_all (\<lambda>kv. fits_int64 (snd kv)) d \<Longrightarrow>
     insert_products_cells c (Some ow) (Some ds) (cells_of_dict d) = (insert_products c ow ds d, None)"
proof (induction d arbitrary: c)
  case Nil
  then show ?case by (simp add: cells_of_dict_def)
next
  case (Cons kv d)
  obtain p q where kv: "kv = (p, q)" by (cases kv)
  obtain pid c1 where g: "get_or_create_product c p = (pid, c1)"
    by (cases "get_or_create_product c p")
  from Cons.prems kv have fit: "fits_int64 q" and rest: "list_all (\<lambda>kv. fits_int64 (snd kv)) d"
    by simp_all
  have "cells_of_dict (kv # d) = (Some p, q) # cells_of_dict d"
    by (simp add: cells_of_dict_def kv)
  with Cons.IH [OF rest] g fit show ?case
    by (simp add: kv get_or_create_product_cell_def insert_shipment_cell_def not_null_def)
qed

lemma insert_records_cells_of:
  "list_all (\<lambda>kd. list_all (\<lambda>kv. fits_int64 (snd kv)) (snd kd)) pc \<Longrightarrow>
     insert_records_cells c (cells_of_info info) (cells_of_counts pc) =
       (case insert_records c info pc of (c', out) \<Rightarrow> (c', out, None))"
proof (induction pc arbitrary: c)
  case Nil
  then show ?case by (simp add: cells_of_counts_def)
next
  case (Cons kd pc)
  obtain s d where kd: "kd = (s, d)" by (cases kd)
  from Cons.prems kd have fit: "list_all (\<lambda>kv. fits_int64 (snd kv)) d"
    and rest: "list_all (\<lambda>kd. list_all (\<lambda>kv. fits_int64 (snd kv)) (snd kd)) pc"
    by simp_all
  have unfold: "cells_of_counts ((s, d) # pc) = (Some s, cells_of_dict d) # cells_of_counts pc"
    by (simp add: cells_of_counts_def)
  show ?case
  proof (cases "info s")
    case None
    then have "cells_of_info info (Some s) = None" by (simp add: cells_of_info_def)
    with Cons.IH [OF rest, of c] None show ?thesis
      by (simp add: unfold kd py_str_def split: prod.splits)
  next
    case (Some loc)
    then have "cells_of_info info (Some s) = Some (Some (origin loc), Some (destination loc))"
      by (simp add: cells_of_info_def)
    with Cons.IH [OF rest] Some insert_products_cells_of [OF fit] show ?thesis
      by (simp add: unfold kd)
  qed
qed

lemma increment_bounded:
  "0 \<le> n \<Longrightarrow> list_all (\<lambda>kv. 0 \<le> snd kv \<and> snd kv \<le> n) d \<Longrightarrow>
     list_all (\<lambda>kv. 0 \<le> snd kv \<and> snd kv \<le> n + 1) (increment d p)"
proof (induction d)
  case Nil
  then show ?case by simp
next
  case (Cons kv d)
  then have "list_all (\<lambda>kv. 0 \<le> snd kv \<and> snd kv \<le> n + 1) d"
    by (auto simp: list_all_iff)
  with Cons show ?case by (cases kv) auto
qed

lemma count_unit_bounded:
  "0 \<le> n \<Longrightarrow> list_all (\<lambda>kd. list_all (\<lambda>kv. 0 \<le> snd kv \<and> snd kv \<le> n) (snd kd)) pc \<Longrightarrow>
     list_all (\<lambda>kd. list_all (\<lambda>kv. 0 \<le> snd kv \<and> snd kv \<le> n + 1) (snd kd)) (count_unit pc s p)"
proof (induction pc)
  case Nil
  have "list_all (\<lambda>kv. 0 \<le> snd kv \<and> snd kv \<le> n + 1) (increment [] p)"
    using Nil.prems(1) by simp
  then show ?case by simp
next
  case (Cons kd pc)
  obtain k d where kd: "kd = (k, d)" by (cases kd)
  from Cons.prems(2) kd have d: "list_all (\<lambda>kv. 0 \<le> snd kv \<and> snd kv \<le> n) d"
    and pc: "list_all (\<lambda>kd. list_all (\<lambda>kv. 0 \<le> snd kv \<and> snd kv \<le> n) (snd kd)) pc"
    by simp_all
  from d have d': "list_all (\<lambda>kv. 0 \<le> snd kv \<and> snd kv \<le> n + 1) d"
    by (auto simp: list_all_iff)
  from pc have pc': "list_all (\<lambda>kd. list_all (\<lambda>kv. 0 \<le> snd kv \<and> snd kv \<le> n + 1) (snd kd)) pc"
    by (rule list.pred_mono_strong) (auto simp: list_all_iff)
  from Cons.IH [OF Cons.prems(1) pc] increment_bounded [OF Cons.prems(1) d, of p] d' pc' show ?case
    by (simp add: kd)
qed

lemma count_products_bounded:
  "count_products pc rows = Inr pc' \<Longrightarrow> 0 \<le> n \<Longrightarrow>
     list_all (\<lambda>kd. list_all (\<lambda>kv. 0 \<le> snd kv \<and> snd kv \<le> n) (snd kd)) pc \<Longrightarrow>
     list_all (\<lambda>kd. list_all (\<lambda>kv. 0 \<le> snd kv \<and> snd kv \<le> n + int (length rows)) (snd kd)) pc'"
proof (induction rows arbitrary: pc n)
  case Nil
  then show ?case by simp
next
  case (Cons row rows)
  from Cons.prems(1) obtain s p where "count_products (count_unit pc s p) rows = Inr pc'"
    by (auto simp: getitem_def split: option.splits)
  from Cons.IH [OF this _ count_unit_bounded [OF Cons.prems(2) Cons.prems(3)]] Cons.prems(2)
  show ?case
    by (simp add: algebra_simps)
qed

text \<open>
  On two files that are read to their ends and whose lines are complete, the fact
  file having fewer than \<open>2 ^ 63\<close> lines, the function does what the section on
  complete lines says: the same store, the same lines printed, the same exception.
\<close>

lemma process_shipping_data_1_and_2_cells_of:
  assumes "int (length rows_1) < 2 ^ 63"
  shows "process_shipping_data_1_and_2_cells c (map cells_of rows_1, None)
           (map cells_of rows_2, None) =
           process_shipping_data_1_and_2 c rows_1 rows_2"
proof -
  have e: "cells_of_info Map.empty = Map.empty"
    by (auto simp: cells_of_info_def fun_eq_iff split: option.splits)
  have n: "cells_of_counts [] = []"
    by (simp add: cells_of_counts_def)
  show ?thesis
  proof (cases "load_shipment_info Map.empty rows_2")
    case (Inl err)
    with load_shipment_info_cells_of [of Map.empty rows_2] show ?thesis
      by (simp add: e process_shipping_data_1_and_2_cells_def process_shipping_data_1_and_2_def)
  next
    case info: (Inr info)
    show ?thesis
    proof (cases "count_products [] rows_1")
      case (Inl err)
      with info load_shipment_info_cells_of [of Map.empty rows_2]
        count_products_cells_of [of "[]" rows_1]
      show ?thesis
        by (simp add: e n process_shipping_data_1_and_2_cells_def
              process_shipping_data_1_and_2_def)
    next
      case (Inr pc)
      from count_products_bounded [OF Inr, of 0]
      have "list_all (\<lambda>kd. list_all (\<lambda>kv. 0 \<le> snd kv \<and> snd kv \<le> int (length rows_1)) (snd kd)) pc"
        by simp
      then have "list_all (\<lambda>kd. list_all (\<lambda>kv. fits_int64 (snd kv)) (snd kd)) pc"
      proof (rule list.pred_mono_strong)
        fix kd :: "string \<times> (string \<times> int) list"
        assume "list_all (\<lambda>kv. 0 \<le> snd kv \<and> snd kv \<le> int (length rows_1)) (snd kd)"
        then show "list_all (\<lambda>kv. fits_int64 (snd kv)) (snd kd)"
        proof (rule list.pred_mono_strong)
          fix kv :: "string \<times> int"
          assume "0 \<le> snd kv \<and> snd kv \<le> int (length rows_1)"
          with assms show "fits_int64 (snd kv)"
            by (simp add: fits_int64_def)
        qed
      qed
      from insert_records_cells_of [OF this, of c info] info Inr
        load_shipment_info_cells_of [of Map.empty rows_2]
        count_products_cells_of [of "[]" rows_1]
      show ?thesis
        by (simp add: e n process_shipping_data_1_and_2_cells_def
              process_shipping_data_1_and_2_def)
    qed
  qed
qed

text \<open>
  A line that has a cell for each field of the header, and no more, gives a row of
  text: the reader yields \<open>cells_of\<close> of it.
\<close>

lemma dict_reader_complete:
  assumes "\<forall>cells \<in> set lines. cells \<noteq> [] \<and> length cells = length fieldnames"
  shows "dict_reader fieldnames lines =
           map (\<lambda>cells. cells_of (map_of (rev (zip fieldnames cells)))) lines"
proof -
  have row: "map_of (rev (zip fieldnames (map Some cells @ replicate (length fieldnames - length cells) None))) =
             cells_of (map_of (rev (zip fieldnames cells)))"
    if "length cells = length fieldnames" for cells :: "string list"
  proof -
    have a: "zip fieldnames (map Some cells) = map (\<lambda>(k, v). (k, Some v)) (zip fieldnames cells)"
      by (simp add: zip_map2 case_prod_beta)
    have "map_of (rev (zip fieldnames (map Some cells))) =
            map_of (map (\<lambda>(k, v). (k, Some v)) (rev (zip fieldnames cells)))"
      by (simp only: a rev_map)
    also have "\<dots> = map_option Some \<circ> map_of (rev (zip fieldnames cells))"
      by (rule map_of_map)
    finally show ?thesis
      using that by (simp add: cells_of_def fun_eq_iff)
  qed
  from assms have "filter (\<lambda>cells. cells \<noteq> []) lines = lines"
    by (simp add: filter_id_conv)
  with assms row show ?thesis
    by (simp add: dict_reader_def)
qed

text \<open>
  So the section on complete lines describes the function on every pair of files that
  are read to their ends and whose lines have a cell for each field.
\<close>

lemma process_shipping_data_1_and_2_complete:
  assumes "\<forall>cells \<in> set lines_1. cells \<noteq> [] \<and> length cells = length header_1"
    and "\<forall>cells \<in> set lines_2. cells \<noteq> [] \<and> length cells = length header_2"
    and "int (length lines_1) < 2 ^ 63"
  shows "process_shipping_data_1_and_2_cells c (dict_reader header_1 lines_1, None)
           (dict_reader header_2 lines_2, None) =
         process_shipping_data_1_and_2 c
           (map (\<lambda>cells. map_of (rev (zip header_1 cells))) lines_1)
           (map (\<lambda>cells. map_of (rev (zip header_2 cells))) lines_2)"
proof -
  let ?rows_1 = "map (\<lambda>cells. map_of (rev (zip header_1 cells))) lines_1"
  let ?rows_2 = "map (\<lambda>cells. map_of (rev (zip header_2 cells))) lines_2"
  from dict_reader_complete [OF assms(1)]
  have a: "dict_reader header_1 lines_1 = map cells_of ?rows_1"
    by (simp add: comp_def)
  from dict_reader_complete [OF assms(2)]
  have b: "dict_reader header_2 lines_2 = map cells_of ?rows_2"
    by (simp add: comp_def)
  from assms(3) have "int (length ?rows_1) < 2 ^ 63" by simp
  from process_shipping_data_1_and_2_cells_of [OF this, of c ?rows_2] show ?thesis
    by (simp only: a b)
qed

end
